theory Spec2Isabelle
  imports Complex_Main "HOL-Library.Log_Nat"
begin

section \<open>The Number type of the source language\<close>

text \<open>
  The calculator of \<^verbatim>\<open>src/components/ImportCalculator.tsx\<close> computes with the
  \<^verbatim>\<open>number\<close> type of TypeScript, the binary64 format of IEEE 754: the not-a-number
  value, the two infinities and the finite values, each of them a rational number
  \<open>m * 2 ^ t\<close> with \<open>\<bar>m\<bar> < 2 ^ 53\<close> and \<open>- 1074 \<le> t \<le> 971\<close>. A finite value is
  kept as the rational number it denotes. The two zeros \<open>+0\<close> and \<open>-0\<close> are one
  value \<open>Fin 0\<close> here: the calculation only multiplies, adds, tests for truthiness
  and, where a number is joined to a string, converts to text, and none of these tells
  them apart.
\<close>

datatype number = NaN | PosInf | NegInf | Fin rat

definition pow2 :: "int \<Rightarrow> rat" where
  "pow2 k = (if 0 \<le> k then 2 ^ nat k else 1 / 2 ^ nat (- k))"

definition pow10 :: "int \<Rightarrow> rat" where
  "pow10 k = (if 0 \<le> k then 10 ^ nat k else 1 / 10 ^ nat (- k))"

text \<open>The binary exponent of a positive rational: the \<open>e\<close> with \<open>2 ^ e \<le> x < 2 ^ (e + 1)\<close>.\<close>

definition ilog2 :: "rat \<Rightarrow> int" where
  "ilog2 x = (if 1 \<le> x then bitlen \<lfloor>x\<rfloor> - 1 else - bitlen (\<lceil>1 / x\<rceil> - 1))"

text \<open>The nearest integer, a tie going to the even neighbour.\<close>

definition round_half_even :: "rat \<Rightarrow> int" where
  "round_half_even x =
     (let f = \<lfloor>x\<rfloor>; r = x - of_int f
      in if r < 1 / 2 then f else if 1 / 2 < r then f + 1 else if even f then f else f + 1)"

text \<open>
  Rounding of an exact result to binary64, to nearest with ties to even: the spacing of
  the values around \<open>x\<close> is \<open>2 ^ (e - 52)\<close> for the exponent \<open>e\<close> of \<open>x\<close>, and
  \<open>2 ^ - 1074\<close> in the subnormal range; a result of magnitude \<open>2 ^ 1024\<close> is an
  infinity.
\<close>

definition expo :: "rat \<Rightarrow> int" where
  "expo x = max (ilog2 \<bar>x\<bar>) (- 1022)"

definition quantum :: "rat \<Rightarrow> rat" where
  "quantum x = pow2 (expo x - 52)"

definition round_to :: "rat \<Rightarrow> rat" where
  "round_to x = of_int (round_half_even (x / quantum x)) * quantum x"

definition rnd :: "rat \<Rightarrow> number" where
  "rnd x =
     (if x = 0 then Fin 0
      else if pow2 1024 \<le> \<bar>round_to x\<bar> then (if 0 < x then PosInf else NegInf)
      else Fin (round_to x))"

text \<open>An infinity with the sign of \<open>a\<close>; \<open>0 * Infinity\<close> is not a number.\<close>

definition signed_inf :: "rat \<Rightarrow> number" where
  "signed_inf a = (if a = 0 then NaN else if 0 < a then PosInf else NegInf)"

text \<open>The operators \<^verbatim>\<open>*\<close> and \<^verbatim>\<open>+\<close> on numbers.\<close>

fun fmul :: "number \<Rightarrow> number \<Rightarrow> number" where
  "fmul (Fin a) (Fin b) = rnd (a * b)"
| "fmul (Fin a) PosInf = signed_inf a"
| "fmul (Fin a) NegInf = signed_inf (- a)"
| "fmul PosInf (Fin b) = signed_inf b"
| "fmul NegInf (Fin b) = signed_inf (- b)"
| "fmul PosInf PosInf = PosInf"
| "fmul PosInf NegInf = NegInf"
| "fmul NegInf PosInf = NegInf"
| "fmul NegInf NegInf = PosInf"
| "fmul NaN _ = NaN"
| "fmul _ NaN = NaN"

fun fadd :: "number \<Rightarrow> number \<Rightarrow> number" where
  "fadd (Fin a) (Fin b) = rnd (a + b)"
| "fadd (Fin a) PosInf = PosInf"
| "fadd (Fin a) NegInf = NegInf"
| "fadd PosInf (Fin b) = PosInf"
| "fadd NegInf (Fin b) = NegInf"
| "fadd PosInf PosInf = PosInf"
| "fadd NegInf NegInf = NegInf"
| "fadd PosInf NegInf = NaN"
| "fadd NegInf PosInf = NaN"
| "fadd NaN _ = NaN"
| "fadd _ NaN = NaN"

fun fneg :: "number \<Rightarrow> number" where
  "fneg NaN = NaN"
| "fneg PosInf = NegInf"
| "fneg NegInf = PosInf"
| "fneg (Fin a) = Fin (- a)"

text \<open>
  Truthiness (\<^verbatim>\<open>!x\<close>, \<^verbatim>\<open>x || d\<close>): a number is falsy when it is \<open>NaN\<close> or a zero.
\<close>

fun falsy :: "number \<Rightarrow> bool" where
  "falsy NaN = True"
| "falsy (Fin a) = (a = 0)"
| "falsy PosInf = False"
| "falsy NegInf = False"

text \<open>The comparisons \<^verbatim>\<open><=\<close> and \<^verbatim>\<open><\<close>: false as soon as one side is \<open>NaN\<close>.\<close>

fun num_le :: "number \<Rightarrow> number \<Rightarrow> bool" where
  "num_le NaN _ = False"
| "num_le _ NaN = False"
| "num_le NegInf _ = True"
| "num_le _ PosInf = True"
| "num_le PosInf _ = False"
| "num_le _ NegInf = False"
| "num_le (Fin a) (Fin b) = (a \<le> b)"

fun num_lt :: "number \<Rightarrow> number \<Rightarrow> bool" where
  "num_lt NaN _ = False"
| "num_lt _ NaN = False"
| "num_lt PosInf _ = False"
| "num_lt _ NegInf = False"
| "num_lt NegInf _ = True"
| "num_lt _ PosInf = True"
| "num_lt (Fin a) (Fin b) = (a < b)"

section \<open>parseFloat\<close>

text \<open>
  \<^verbatim>\<open>parseFloat(carValue)\<close> skips leading white space, takes the longest prefix of
  the rest that is a \<^verbatim>\<open>StrDecimalLiteral\<close> (an optional sign, then
  \<^verbatim>\<open>Infinity\<close>, or digits with an optional fraction, or a fraction alone, and an
  optional exponent part that counts only with at least one digit) and returns its
  value rounded to a number; without such a prefix the result is \<open>NaN\<close>. Characters
  are the code units up to \<open>0xFF\<close>; the white space among them is TAB, LF, VT, FF,
  CR, SP and NBSP. The value of a literal is rounded correctly, which is what
  ECMAScript asks for up to 20 significant digits and allows beyond.
\<close>

definition is_ws :: "char \<Rightarrow> bool" where
  "is_ws c = (of_char c \<in> {9, 10, 11, 12, 13, 32, 160 :: nat})"

definition is_digit :: "char \<Rightarrow> bool" where
  "is_digit c = (48 \<le> (of_char c :: nat) \<and> (of_char c :: nat) \<le> 57)"

definition digits_val :: "string \<Rightarrow> nat" where
  "digits_val ds = foldl (\<lambda>n c. 10 * n + (of_char c - 48)) 0 ds"

text \<open>The sign in front of a literal or of an exponent: whether it is negative, and the rest.\<close>

fun opt_sign :: "string \<Rightarrow> bool \<times> string" where
  "opt_sign [] = (False, [])"
| "opt_sign (c # r) =
     (if c = CHR ''-'' then (True, r) else if c = CHR ''+'' then (False, r) else (False, c # r))"

text \<open>The value of the exponent part at the head of the string, \<open>0\<close> when there is none.\<close>

fun exponent_part :: "string \<Rightarrow> int" where
  "exponent_part [] = 0"
| "exponent_part (c # r) =
     (if c = CHR ''e'' \<or> c = CHR ''E''
      then (let (neg, r') = opt_sign r; ds = takeWhile is_digit r'
            in if ds = [] then 0
               else if neg then - int (digits_val ds) else int (digits_val ds))
      else 0)"

text \<open>The part of the string after a decimal point at its head, if there is one.\<close>

fun after_point :: "string \<Rightarrow> string option" where
  "after_point [] = None"
| "after_point (c # r) = (if c = CHR ''.'' then Some r else None)"

definition StrUnsignedDecimalLiteral :: "string \<Rightarrow> number option" where
  "StrUnsignedDecimalLiteral u =
     (if take 8 u = ''Infinity'' then Some PosInf
      else let ip = takeWhile is_digit u;
               r1 = dropWhile is_digit u;
               fp = (case after_point r1 of None \<Rightarrow> [] | Some r \<Rightarrow> takeWhile is_digit r);
               r2 = (case after_point r1 of None \<Rightarrow> r1 | Some r \<Rightarrow> dropWhile is_digit r)
           in if ip = [] \<and> fp = [] then None
              else Some (rnd (of_nat (digits_val (ip @ fp))
                              * pow10 (exponent_part r2 - int (length fp)))))"

definition parseFloat :: "string \<Rightarrow> number" where
  "parseFloat s =
     (let (neg, u) = opt_sign (dropWhile is_ws s)
      in case StrUnsignedDecimalLiteral u of
           None \<Rightarrow> NaN
         | Some v \<Rightarrow> if neg then fneg v else v)"

section \<open>The calculator\<close>

text \<open>
  The state of the component that \<^verbatim>\<open>calculateCosts\<close> reads: the four form fields,
  which are strings, the rates \<^verbatim>\<open>kraData\<close> and the table \<^verbatim>\<open>shippingRates\<close>,
  a plain object whose own properties, the keys of the table, hold numbers.

  The field \<^verbatim>\<open>value\<close> of an option is \<open>engine_value\<close> or \<open>age_value\<close> here, its
  \<^verbatim>\<open>label\<close> likewise, and the \<^verbatim>\<open>depreciationFactor\<close> of an age option is
  \<open>age_depreciationFactor\<close>: the fields of all records share one name space, and the
  breakdown has a field \<^verbatim>\<open>depreciationFactor\<close> of its own.
\<close>

record KRAData =
  importDutyRate :: number
  exciseDutyRate :: number
  vatRate :: number
  lastUpdated :: string

type_synonym ShippingRates = "string \<rightharpoonup> number"

record State =
  carValue :: string
  engineSize :: string
  age :: string
  origin :: string
  kraData :: KRAData
  shippingRates :: ShippingRates

record EngineSizeOption =
  engine_value :: string
  engine_label :: string
  multiplier :: number

record AgeOption =
  age_value :: string
  age_label :: string
  age_depreciationFactor :: number

text \<open>
  A decimal literal of the source denotes the number nearest to its mathematical
  value: \<^verbatim>\<open>1.1\<close> is \<open>rnd (11 / 10)\<close>.
\<close>

definition engineSizeOptions :: "EngineSizeOption list" where
  "engineSizeOptions =
     [\<lparr>engine_value = ''1000'', engine_label = ''Below 1000cc'', multiplier = rnd 1\<rparr>,
      \<lparr>engine_value = ''1500'', engine_label = ''1001-1500cc'', multiplier = rnd (11 / 10)\<rparr>,
      \<lparr>engine_value = ''2000'', engine_label = ''1501-2000cc'', multiplier = rnd (12 / 10)\<rparr>,
      \<lparr>engine_value = ''2500'', engine_label = ''2001-2500cc'', multiplier = rnd (13 / 10)\<rparr>,
      \<lparr>engine_value = ''3000'', engine_label = ''2501-3000cc'', multiplier = rnd (14 / 10)\<rparr>,
      \<lparr>engine_value = ''3500'', engine_label = ''3001-4000cc'', multiplier = rnd (15 / 10)\<rparr>,
      \<lparr>engine_value = ''4000'', engine_label = ''Above 4000cc'', multiplier = rnd (16 / 10)\<rparr>]"

definition ageOptions :: "AgeOption list" where
  "ageOptions =
     [\<lparr>age_value = ''1'', age_label = ''Less than 1 year'', age_depreciationFactor = rnd 1\<rparr>,
      \<lparr>age_value = ''2'', age_label = ''1-2 years'', age_depreciationFactor = rnd (95 / 100)\<rparr>,
      \<lparr>age_value = ''3'', age_label = ''2-3 years'', age_depreciationFactor = rnd (90 / 100)\<rparr>,
      \<lparr>age_value = ''5'', age_label = ''3-5 years'', age_depreciationFactor = rnd (85 / 100)\<rparr>,
      \<lparr>age_value = ''8'', age_label = ''5-8 years'', age_depreciationFactor = rnd (80 / 100)\<rparr>,
      \<lparr>age_value = ''10'', age_label = ''8+ years'', age_depreciationFactor = rnd (75 / 100)\<rparr>]"

text \<open>
  The initial rates, which \<^verbatim>\<open>fetchKRAData\<close> sets again on every refresh with the time
  of the refresh, and the initial shipping table, which \<^verbatim>\<open>fetchShippingRates\<close>
  replaces by a table of the same three keys with rates that are a random amount higher.
\<close>

definition kraData_init :: "string \<Rightarrow> KRAData" where
  "kraData_init now =
     \<lparr>importDutyRate = rnd (25 / 100), exciseDutyRate = rnd (25 / 100),
      vatRate = rnd (16 / 100), lastUpdated = now\<rparr>"

definition shippingRates_init :: ShippingRates where
  "shippingRates_init =
     [''japan'' \<mapsto> rnd 150000, ''uk'' \<mapsto> rnd 200000, ''uae'' \<mapsto> rnd 180000]"

text \<open>
  The index \<^verbatim>\<open>shippingRates[origin]\<close> reads a property of a plain object: the
  number under the key when the table has the key, and otherwise what every object
  inherits from \<^verbatim>\<open>Object.prototype\<close> under that name in a browser, a function for
  eleven names and the prototype itself for \<^verbatim>\<open>__proto__\<close>; only for the other names is
  the result
  \<^verbatim>\<open>undefined\<close>, here \<open>None\<close>. So the shipping cost, and the total it is added to,
  are values that need not be numbers: a number, an inherited object, which is kept
  with the name it was found under, or a string. The operator \<^verbatim>\<open>+\<close> adds two
  numbers and otherwise concatenates the texts of its operands, an object being
  converted to a string; a string is kept as the list of the numbers and objects whose
  texts it concatenates, in their order.
\<close>

datatype text_part = NumberText number | ObjectText string

datatype jsvalue = Num number | Inherited string | Str "text_part list"

definition inherited_names :: "string list" where
  "inherited_names =
     [''constructor'', ''__defineGetter__'', ''__defineSetter__'', ''hasOwnProperty'',
      ''__lookupGetter__'', ''__lookupSetter__'', ''isPrototypeOf'', ''propertyIsEnumerable'',
      ''toString'', ''valueOf'', ''__proto__'', ''toLocaleString'']"

definition get_property :: "ShippingRates \<Rightarrow> string \<Rightarrow> jsvalue option" where
  "get_property t k =
     (case t k of
        Some n \<Rightarrow> Some (Num n)
      | None \<Rightarrow> if k \<in> set inherited_names then Some (Inherited k) else None)"

text \<open>Truthiness of a value: an object is truthy, a string unless it is empty.\<close>

fun falsy_value :: "jsvalue \<Rightarrow> bool" where
  "falsy_value (Num n) = falsy n"
| "falsy_value (Inherited k) = False"
| "falsy_value (Str ps) = (ps = [])"

fun text_of :: "jsvalue \<Rightarrow> text_part list" where
  "text_of (Num n) = [NumberText n]"
| "text_of (Inherited k) = [ObjectText k]"
| "text_of (Str ps) = ps"

fun js_plus :: "jsvalue \<Rightarrow> jsvalue \<Rightarrow> jsvalue" where
  "js_plus (Num a) (Num b) = Num (fadd a b)"
| "js_plus x y = Str (text_of x @ text_of y)"

text \<open>\<^verbatim>\<open>shippingRates[origin] || d\<close>: the default when nothing is found and for a falsy rate.\<close>

definition or_default :: "jsvalue option \<Rightarrow> jsvalue \<Rightarrow> jsvalue" where
  "or_default x d = (case x of None \<Rightarrow> d | Some v \<Rightarrow> if falsy_value v then d else v)"

record Costs =
  originalValue :: number
  adjustedValue :: number
  importDuty :: number
  exciseDuty :: number
  vat :: number
  shippingCost :: jsvalue
  clearingFees :: number
  inspectionFees :: number
  documentationFees :: number
  kraFees :: number
  ntsa_fees :: number
  portHandling :: number
  ourServiceFee :: number
  totalCost :: jsvalue
  engineMultiplier :: number
  depreciationFactor :: number

text \<open>
  \<^verbatim>\<open>calculateCosts\<close>, a function of the state; \<open>None\<close> is its \<^verbatim>\<open>null\<close>. The
  guard \<^verbatim>\<open>!value || !engineSize || !age\<close> tests the parsed value for truthiness and
  the two selectors for the empty string; \<^verbatim>\<open>find\<close> returns the first option with the
  selected value, and \<^verbatim>\<open>undefined\<close>, here \<open>None\<close>, when there is none. The sum
  \<^verbatim>\<open>totalCost\<close> associates to the left, as the source's chain of \<^verbatim>\<open>+\<close> does; every
  field of the breakdown but the shipping cost and the total is a number.
\<close>

definition calculateCosts :: "State \<Rightarrow> Costs option" where
  "calculateCosts st =
     (let v = parseFloat (carValue st)
      in if falsy v \<or> engineSize st = [] \<or> age st = [] then None
         else
           case (find (\<lambda>e. engine_value e = engineSize st) engineSizeOptions,
                 find (\<lambda>a. age_value a = age st) ageOptions) of
             (Some selectedEngine, Some selectedAge) \<Rightarrow>
               (let adjustedValue = fmul (fmul v (multiplier selectedEngine))
                                      (age_depreciationFactor selectedAge);
                    importDuty = fmul adjustedValue (importDutyRate (kraData st));
                    exciseDuty = fmul adjustedValue (exciseDutyRate (kraData st));
                    vat = fmul (fadd (fadd adjustedValue importDuty) exciseDuty)
                            (vatRate (kraData st));
                    shippingCost =
                      or_default (get_property (shippingRates st) (origin st)) (Num (rnd 150000));
                    clearingFees = rnd 85000;
                    inspectionFees = rnd 15000;
                    documentationFees = rnd 25000;
                    kraFees = rnd 5000;
                    ntsa_fees = rnd 3000;
                    portHandling = rnd 12000;
                    ourServiceFee = fmul adjustedValue (rnd (3 / 100));
                    totalCost =
                      js_plus (js_plus (js_plus (js_plus (js_plus (js_plus (js_plus (js_plus
                        (js_plus (js_plus (js_plus
                        (Num adjustedValue) (Num importDuty)) (Num exciseDuty)) (Num vat))
                        shippingCost) (Num clearingFees)) (Num inspectionFees))
                        (Num documentationFees)) (Num kraFees)) (Num ntsa_fees))
                        (Num portHandling)) (Num ourServiceFee)
                in Some \<lparr>originalValue = v, adjustedValue = adjustedValue,
                         importDuty = importDuty, exciseDuty = exciseDuty, vat = vat,
                         shippingCost = shippingCost, clearingFees = clearingFees,
                         inspectionFees = inspectionFees,
                         documentationFees = documentationFees, kraFees = kraFees,
                         ntsa_fees = ntsa_fees, portHandling = portHandling,
                         ourServiceFee = ourServiceFee, totalCost = totalCost,
                         engineMultiplier = multiplier selectedEngine,
                         depreciationFactor = age_depreciationFactor selectedAge\<rparr>)
           | _ \<Rightarrow> None)"

section \<open>Test inputs and ranges\<close>

text \<open>
  The form filled in with a value, an engine band, an age band and an origin, under the
  initial rates and shipping table.
\<close>

definition scenario :: "string \<Rightarrow> string \<Rightarrow> string \<Rightarrow> string \<Rightarrow> State" where
  "scenario v e a org =
     \<lparr>carValue = v, engineSize = e, age = a, origin = org,
      kraData = kraData_init [], shippingRates = shippingRates_init\<rparr>"

text \<open>The breakdown of the example scenario of the specification.\<close>

definition example_costs :: Costs where
  "example_costs =
     \<lparr>originalValue = Fin 2500000, adjustedValue = Fin 2850000, importDuty = Fin 712500,
      exciseDuty = Fin 712500, vat = Fin 684000, shippingCost = Num (Fin 150000),
      clearingFees = Fin 85000, inspectionFees = Fin 15000, documentationFees = Fin 25000,
      kraFees = Fin 5000, ntsa_fees = Fin 3000, portHandling = Fin 12000,
      ourServiceFee = Fin 85500, totalCost = Num (Fin 5339500),
      engineMultiplier = rnd (12 / 10), depreciationFactor = rnd (95 / 100)\<rparr>"

text \<open>Rates that are positive and so small that a duty is lost when it is added to the value.\<close>

definition tiny_rates :: KRAData where
  "tiny_rates =
     \<lparr>importDutyRate = rnd (1 / 10 ^ 17), exciseDutyRate = rnd (1 / 10 ^ 17),
      vatRate = rnd (16 / 100), lastUpdated = []\<rparr>"

text \<open>
  A finite number whose magnitude lies between two bounds, and a finite rate between
  two bounds.
\<close>

fun magnitude_between :: "rat \<Rightarrow> rat \<Rightarrow> number \<Rightarrow> bool" where
  "magnitude_between lo hi (Fin x) = (lo \<le> \<bar>x\<bar> \<and> \<bar>x\<bar> \<le> hi)"
| "magnitude_between lo hi _ = False"

fun rate_between :: "rat \<Rightarrow> rat \<Rightarrow> number \<Rightarrow> bool" where
  "rate_between lo hi (Fin x) = (lo \<le> x \<and> x \<le> hi)"
| "rate_between lo hi _ = False"

section \<open>Properties of rounding\<close>

subsection \<open>Powers of two and the binary exponent\<close>

lemma pow2_powi: "pow2 k = 2 powi k"
  by (simp add: pow2_def power_int_def inverse_eq_divide power_one_over)

lemma pow2_pos [simp]: "0 < pow2 k"
  by (simp add: pow2_powi)

lemma pow2_add: "pow2 (a + b) = pow2 a * pow2 b"
  by (simp add: pow2_powi power_int_add)

lemma pow2_mono: "a \<le> b \<Longrightarrow> pow2 a \<le> pow2 b"
  by (simp add: pow2_powi power_int_increasing)

lemma pow2_strict_mono: "a < b \<Longrightarrow> pow2 a < pow2 b"
  by (simp add: pow2_powi power_int_strict_increasing)

lemma pow2_le_iff [simp]: "pow2 a \<le> pow2 b \<longleftrightarrow> a \<le> b"
  using pow2_mono [of a b] pow2_strict_mono [of b a] by (auto simp: not_le [symmetric])

lemma pow2_less_iff [simp]: "pow2 a < pow2 b \<longleftrightarrow> a < b"
  using pow2_le_iff [of b a] by (simp only: not_le [symmetric])

lemma pow2_nat: "pow2 (int n) = 2 ^ n"
  by (simp add: pow2_def)

lemma pow2_0 [simp]: "pow2 0 = 1"
  by (simp add: pow2_def)

lemma pow2_Suc: "pow2 (k + 1) = 2 * pow2 k"
  by (simp add: pow2_add) (simp add: pow2_def)

lemma pow2_minus: "pow2 (- k) = 1 / pow2 k"
  by (simp add: pow2_powi power_int_minus_divide)

lemma ilog2_bounds:
  assumes "0 < x"
  shows "pow2 (ilog2 x) \<le> x" and "x < pow2 (ilog2 x + 1)"
proof -
  show "pow2 (ilog2 x) \<le> x"
  proof (cases "1 \<le> x")
    case True
    define n where "n = \<lfloor>x\<rfloor>"
    have n: "0 < n" using True by (simp add: n_def)
    have b: "1 \<le> bitlen n" using n bitlen_eq_zero_iff [of n] bitlen_nonneg [of n] by linarith
    have "(2::int) ^ nat (bitlen n - 1) \<le> n" using bitlen_bounds [OF n] by simp
    then have "rat_of_int (2 ^ nat (bitlen n - 1)) \<le> of_int n" by (simp only: of_int_le_iff)
    also have "\<dots> \<le> x" by (simp add: n_def)
    finally show ?thesis using True b by (simp add: ilog2_def n_def [symmetric] pow2_def)
  next
    case False
    define m where "m = \<lceil>1 / x\<rceil>"
    have 1: "1 < 1 / x" using False assms by (simp add: field_simps)
    then have m: "2 \<le> m" unfolding m_def by (simp add: le_ceiling_iff)
    then have m1: "0 < m - 1" by simp
    define k where "k = bitlen (m - 1)"
    have k: "1 \<le> k" using m1 bitlen_eq_zero_iff [of "m - 1"] bitlen_nonneg [of "m - 1"]
      unfolding k_def by linarith
    have "m - 1 < 2 ^ nat k" using bitlen_bounds [OF m1] by (simp add: k_def)
    then have "m \<le> 2 ^ nat k" by simp
    then have "rat_of_int m \<le> of_int (2 ^ nat k)" by (simp only: of_int_le_iff)
    moreover have "1 / x \<le> rat_of_int m" unfolding m_def by (rule le_of_int_ceiling)
    ultimately have "1 / x \<le> rat_of_int (2 ^ nat k)" by linarith
    then have "1 / x \<le> 2 ^ nat k" by simp
    then have "1 / 2 ^ nat k \<le> x" using assms by (simp add: field_simps)
    then show ?thesis using False k by (simp add: ilog2_def m_def [symmetric] k_def [symmetric] pow2_def)
  qed
  show "x < pow2 (ilog2 x + 1)"
  proof (cases "1 \<le> x")
    case True
    define n where "n = \<lfloor>x\<rfloor>"
    have n: "0 < n" using True by (simp add: n_def)
    have b: "1 \<le> bitlen n" using n bitlen_eq_zero_iff [of n] bitlen_nonneg [of n] by linarith
    have "n < 2 ^ nat (bitlen n)" using bitlen_bounds [OF n] by simp
    then have "n + 1 \<le> 2 ^ nat (bitlen n)" by simp
    then have "rat_of_int (n + 1) \<le> of_int (2 ^ nat (bitlen n))" by (simp only: of_int_le_iff)
    moreover have "x < of_int (n + 1)" unfolding n_def by linarith
    ultimately have "x < 2 ^ nat (bitlen n)" by simp
    then show ?thesis using True b by (simp add: ilog2_def n_def [symmetric] pow2_def)
  next
    case False
    define m where "m = \<lceil>1 / x\<rceil>"
    have 1: "1 < 1 / x" using False assms by (simp add: field_simps)
    then have m: "2 \<le> m" unfolding m_def by (simp add: le_ceiling_iff)
    then have m1: "0 < m - 1" by simp
    define k where "k = bitlen (m - 1)"
    have k: "1 \<le> k" using m1 bitlen_eq_zero_iff [of "m - 1"] bitlen_nonneg [of "m - 1"]
      unfolding k_def by linarith
    have "2 ^ nat (k - 1) \<le> m - 1" using bitlen_bounds [OF m1] by (simp add: k_def)
    then have "rat_of_int (2 ^ nat (k - 1)) \<le> of_int (m - 1)" by (simp only: of_int_le_iff)
    moreover have "of_int (m - 1) < 1 / x" unfolding m_def by linarith
    ultimately have "2 ^ nat (k - 1) < 1 / x" by simp
    then have lt: "x < 1 / 2 ^ nat (k - 1)" using assms by (simp add: field_simps)
    have "pow2 (- k + 1) = 1 / 2 ^ nat (k - 1)"
      using k by (auto simp: pow2_def)
    then show ?thesis using False lt by (simp add: ilog2_def m_def [symmetric] k_def [symmetric])
  qed
qed

lemma ilog2_unique:
  assumes "0 < x" "pow2 e \<le> x" "x < pow2 (e + 1)"
  shows "ilog2 x = e"
proof -
  have "pow2 e < pow2 (ilog2 x + 1)" using assms ilog2_bounds(2) [OF assms(1)] by linarith
  moreover have "pow2 (ilog2 x) < pow2 (e + 1)" using assms ilog2_bounds(1) [OF assms(1)] by linarith
  ultimately show ?thesis by simp
qed

lemma ilog2_mono:
  assumes "0 < x" "x \<le> y"
  shows "ilog2 x \<le> ilog2 y"
proof -
  have "pow2 (ilog2 x) < pow2 (ilog2 y + 1)"
    using ilog2_bounds(1) [OF assms(1)] ilog2_bounds(2) [of y] assms by linarith
  then show ?thesis by simp
qed

subsection \<open>Rounding to the nearest integer\<close>

lemma rhe_floor: "\<lfloor>x\<rfloor> \<le> round_half_even x" "round_half_even x \<le> \<lfloor>x\<rfloor> + 1"
  by (simp_all add: round_half_even_def Let_def)

lemma rhe_error: "\<bar>of_int (round_half_even x) - x\<bar> \<le> 1 / 2"
proof -
  have "of_int \<lfloor>x\<rfloor> \<le> x" "x < of_int \<lfloor>x\<rfloor> + 1" by linarith+
  then show ?thesis
    by (auto simp: round_half_even_def Let_def abs_le_iff)
qed

lemma rhe_of_int [simp]: "round_half_even (of_int k) = k"
  by (simp add: round_half_even_def)

lemma rhe_mono:
  assumes "x \<le> y"
  shows "round_half_even x \<le> round_half_even y"
proof (cases "\<lfloor>x\<rfloor> = \<lfloor>y\<rfloor>")
  case True
  then show ?thesis using assms
    by (auto simp: round_half_even_def Let_def)
next
  case False
  then have "\<lfloor>x\<rfloor> + 1 \<le> \<lfloor>y\<rfloor>" using floor_mono [OF assms] by linarith
  then show ?thesis using rhe_floor(2) [of x] rhe_floor(1) [of y] by linarith
qed

lemma rhe_minus: "round_half_even (- x) = - round_half_even x"
proof (cases "x = of_int \<lfloor>x\<rfloor>")
  case True
  then obtain k where "x = of_int k" ..
  then show ?thesis by (simp flip: of_int_minus)
next
  case False
  then have f: "\<lfloor>- x\<rfloor> = - \<lfloor>x\<rfloor> - 1"
    by (metis Ints_of_int ceiling_altdef ceiling_def floor_of_int of_int_floor_cancel diff_minus_eq_add minus_add_cancel minus_diff_eq uminus_add_conv_diff)
  show ?thesis using False
    by (auto simp: round_half_even_def Let_def f)
qed

subsection \<open>Rounding to the nearest number: monotonicity and error\<close>

lemma expo_ge: "- 1022 \<le> expo x" "ilog2 \<bar>x\<bar> \<le> expo x"
  by (simp_all add: expo_def)

lemma expo_minus [simp]: "expo (- x) = expo x"
  by (simp add: expo_def)

lemma quantum_pos [simp]: "0 < quantum x"
  by (simp add: quantum_def)

lemma quantum_nonneg [simp]: "0 \<le> quantum x"
  by (simp add: less_imp_le)

lemma quantum_neq0 [simp]: "quantum x \<noteq> 0"
  using quantum_pos [of x] by (simp only: less_le) simp

lemma rhe_0 [simp]: "round_half_even 0 = 0"
  by (simp add: round_half_even_def)

lemma quantum_minus [simp]: "quantum (- x) = quantum x"
  by (simp add: quantum_def)

lemma round_to_minus: "round_to (- x) = - round_to x"
  by (simp add: round_to_def rhe_minus)

lemma round_to_0 [simp]: "round_to 0 = 0"
  by (simp add: round_to_def)

lemma pow2_numeral: "pow2 (numeral n) = 2 ^ numeral n"
  by (simp add: pow2_def)

lemma pow2_53_quantum: "pow2 (expo x + 1) = 2 ^ 53 * quantum x"
proof -
  have "pow2 (expo x + 1) = pow2 (expo x - 52 + 53)"
    by (rule arg_cong [where f = pow2]) simp
  also have "\<dots> = pow2 (expo x - 52) * pow2 53" by (rule pow2_add)
  finally show ?thesis by (simp add: quantum_def pow2_numeral)
qed

lemma pow2_52_quantum: "pow2 (expo x) = 2 ^ 52 * quantum x"
proof -
  show ?thesis
    using pow2_add [of 52 "expo x - 52"] by (simp add: quantum_def pow2_numeral)
qed

lemma below_next_binade:
  assumes "x \<noteq> 0"
  shows "\<bar>x\<bar> < pow2 (expo x + 1)"
proof -
  have "\<bar>x\<bar> < pow2 (ilog2 \<bar>x\<bar> + 1)" using assms by (simp add: ilog2_bounds(2))
  also have "\<dots> \<le> pow2 (expo x + 1)" using expo_ge(2) [of x] by simp
  finally show ?thesis .
qed

lemma round_to_upper:
  assumes "0 < x"
  shows "round_to x \<le> pow2 (expo x + 1)"
proof -
  have "x < 2 ^ 53 * quantum x"
    using below_next_binade [of x] assms by (simp add: pow2_53_quantum)
  then have "x / quantum x \<le> of_int (2 ^ 53)" by (simp add: field_simps)
  then have "round_half_even (x / quantum x) \<le> 2 ^ 53"
    using rhe_mono [of "x / quantum x" "of_int (2 ^ 53)"] by (simp only: rhe_of_int)
  then have "rat_of_int (round_half_even (x / quantum x)) \<le> of_int (2 ^ 53)"
    by (simp only: of_int_le_iff)
  then have "round_to x \<le> of_int (2 ^ 53) * quantum x"
    unfolding round_to_def by (intro mult_right_mono) simp_all
  then show ?thesis by (simp add: pow2_53_quantum)
qed

lemma round_to_lower:
  assumes "0 < x" "- 1022 \<le> ilog2 x"
  shows "pow2 (ilog2 x) \<le> round_to x"
proof -
  have e: "expo x = ilog2 x" using assms by (simp add: expo_def)
  have "pow2 (expo x) \<le> x" using ilog2_bounds(1) [OF assms(1)] by (simp add: e)
  then have "2 ^ 52 * quantum x \<le> x" by (simp only: pow2_52_quantum)
  then have "of_int (2 ^ 52) \<le> x / quantum x" by (simp add: field_simps)
  then have "2 ^ 52 \<le> round_half_even (x / quantum x)"
    using rhe_mono [of "of_int (2 ^ 52)" "x / quantum x"] by (simp only: rhe_of_int)
  then have "rat_of_int (2 ^ 52) \<le> of_int (round_half_even (x / quantum x))"
    by (simp only: of_int_le_iff)
  then have "of_int (2 ^ 52) * quantum x \<le> round_to x"
    unfolding round_to_def by (intro mult_right_mono) simp_all
  then have "pow2 (expo x) \<le> round_to x" by (simp add: pow2_52_quantum)
  then show ?thesis by (simp add: e)
qed

lemma round_to_nonneg:
  assumes "0 \<le> x"
  shows "0 \<le> round_to x"
proof -
  have "0 \<le> x / quantum x" using assms by (simp add: zero_le_divide_iff)
  then have "round_half_even (of_int 0) \<le> round_half_even (x / quantum x)"
    by (intro rhe_mono) simp
  then show ?thesis by (simp add: round_to_def)
qed

lemma round_to_mono_pos:
  assumes "0 < x" "x \<le> y"
  shows "round_to x \<le> round_to y"
proof -
  have y: "0 < y" using assms by simp
  have le: "expo x \<le> expo y"
    using ilog2_mono [of "\<bar>x\<bar>" "\<bar>y\<bar>"] assms by (simp add: expo_def)
  show ?thesis
  proof (cases "expo x = expo y")
    case True
    then have q: "quantum x = quantum y" by (simp add: quantum_def)
    have "x / quantum y \<le> y / quantum y" using assms by (simp add: divide_right_mono)
    then have "rat_of_int (round_half_even (x / quantum y)) \<le> of_int (round_half_even (y / quantum y))"
      using rhe_mono by (simp only: of_int_le_iff)
    then show ?thesis unfolding round_to_def q by (intro mult_right_mono) simp_all
  next
    case False
    then have lt: "expo x + 1 \<le> expo y" using le by simp
    then have "- 1022 < expo y" using expo_ge(1) [of x] by simp
    then have e: "expo y = ilog2 y" "- 1022 \<le> ilog2 y" using y by (simp_all add: expo_def max_def split: if_splits)
    have "round_to x \<le> pow2 (expo x + 1)" by (rule round_to_upper [OF assms(1)])
    also have "\<dots> \<le> pow2 (ilog2 y)" using lt e by simp
    also have "\<dots> \<le> round_to y" by (rule round_to_lower [OF y e(2)])
    finally show ?thesis .
  qed
qed

lemma rnd_mono_nonneg:
  assumes "0 \<le> x" "x \<le> y"
  shows "num_le (rnd x) (rnd y)"
proof (cases "x = 0")
  case True
  then show ?thesis using assms round_to_nonneg [of y] by (simp add: rnd_def)
next
  case False
  then have x: "0 < x" using assms by simp
  then have y: "0 < y" using assms by simp
  have "round_to x \<le> round_to y" by (rule round_to_mono_pos [OF x assms(2)])
  moreover have "0 \<le> round_to x" "0 \<le> round_to y" using x y by (simp_all add: round_to_nonneg)
  ultimately show ?thesis using x y by (simp add: rnd_def)
qed

lemma round_to_error:
  assumes "pow2 (- 1022) \<le> \<bar>x\<bar>"
  shows "\<bar>round_to x - x\<bar> \<le> \<bar>x\<bar> / 2 ^ 53"
proof -
  have x: "0 < \<bar>x\<bar>" using assms pow2_pos [of "- 1022"] by linarith
  have "pow2 (- 1022) < pow2 (ilog2 \<bar>x\<bar> + 1)"
    using assms ilog2_bounds(2) [OF x] by linarith
  then have e: "expo x = ilog2 \<bar>x\<bar>" by (simp add: expo_def)
  have "pow2 (expo x) \<le> \<bar>x\<bar>" using ilog2_bounds(1) [OF x] by (simp add: e)
  then have q: "2 ^ 52 * quantum x \<le> \<bar>x\<bar>" by (simp only: pow2_52_quantum)
  have "round_to x - x = (of_int (round_half_even (x / quantum x)) - x / quantum x) * quantum x"
    using quantum_pos [of x] by (simp add: round_to_def field_simps)
  then have "\<bar>round_to x - x\<bar> = \<bar>of_int (round_half_even (x / quantum x)) - x / quantum x\<bar> * quantum x"
    by (simp add: abs_mult)
  also have "\<dots> \<le> 1 / 2 * quantum x"
    by (intro mult_right_mono rhe_error) simp
  also have "\<dots> \<le> \<bar>x\<bar> / 2 ^ 53" using q by simp
  finally show ?thesis .
qed

subsection \<open>The result of a rounding is a number\<close>

lemma ilog2_less:
  assumes "x \<noteq> 0" "\<bar>x\<bar> < pow2 k"
  shows "ilog2 \<bar>x\<bar> < k"
proof -
  have "pow2 (ilog2 \<bar>x\<bar>) \<le> \<bar>x\<bar>"
    using ilog2_bounds(1) [of "\<bar>x\<bar>"] assms by simp
  then have "pow2 (ilog2 \<bar>x\<bar>) < pow2 k" using assms(2) by linarith
  then show ?thesis by simp
qed

lemma abs_pow2 [simp]: "\<bar>pow2 k\<bar> = pow2 k"
  by (simp add: less_imp_le)

lemma round_to_grid:
  assumes "x = of_int k * quantum x"
  shows "round_to x = x"
proof -
  have "x / quantum x = of_int k" using assms by (simp add: field_simps)
  then show ?thesis using assms by (simp add: round_to_def)
qed

lemma on_finer_grid:
  assumes "expo x \<le> e" "x = of_int M * pow2 (e - 52)"
  shows "\<exists>k. x = of_int k * quantum x"
proof -
  define d where "d = nat (e - expo x)"
  have "pow2 (e - 52) = pow2 (int d + (expo x - 52))"
    using assms(1) by (intro arg_cong [where f = pow2]) (simp add: d_def)
  also have "\<dots> = 2 ^ d * quantum x" by (simp only: pow2_add pow2_nat quantum_def)
  finally have "x = of_int (M * 2 ^ d) * quantum x" using assms(2) by simp
  then show ?thesis ..
qed

lemma rhe_abs_le:
  assumes "\<bar>x\<bar> \<le> of_int n"
  shows "\<bar>round_half_even x\<bar> \<le> n"
proof -
  have "x \<le> of_int n" "of_int (- n) \<le> x" using assms by (simp_all add: abs_le_iff)
  then have "round_half_even x \<le> n" "- n \<le> round_half_even x"
    using rhe_mono [of x "of_int n"] rhe_mono [of "of_int (- n)" x] by (simp_all only: rhe_of_int)
  then show ?thesis by simp
qed

lemma round_to_idem: "round_to (round_to z) = round_to z"
proof (cases "z = 0")
  case True
  then show ?thesis by simp
next
  case False
  define e where "e = expo z"
  define M where "M = round_half_even (z / quantum z)"
  define x where "x = round_to z"
  have q: "quantum z = pow2 (e - 52)" by (simp add: quantum_def e_def)
  have xM: "x = of_int M * pow2 (e - 52)" by (simp add: x_def round_to_def M_def q)
  have "\<bar>z\<bar> < 2 ^ 53 * quantum z"
    using below_next_binade [OF False] by (simp add: pow2_53_quantum)
  then have "\<bar>z / quantum z\<bar> \<le> of_int (2 ^ 53)" by (simp add: field_simps abs_if split: if_splits)
  then have M: "\<bar>M\<bar> \<le> 2 ^ 53" unfolding M_def by (rule rhe_abs_le)
  have e: "- 1022 \<le> e" by (simp add: e_def expo_ge)
  have "\<exists>k. x = of_int k * quantum x"
  proof (cases "\<bar>M\<bar> = 2 ^ 53")
    case True
    then have "M = 9007199254740992 \<or> M = - 9007199254740992"
      by (simp add: abs_if split: if_splits)
    then have "M = 2 * (M div 2)" by auto
    then have "x = of_int (2 * (M div 2)) * pow2 (e - 52)" using xM by simp
    also have "\<dots> = of_int (M div 2) * (2 * pow2 (e - 52))" by simp
    also have "2 * pow2 (e - 52) = pow2 (e + 1 - 52)"
      using pow2_Suc [of "e - 52"] by (simp add: algebra_simps)
    finally have x2: "x = of_int (M div 2) * pow2 (e + 1 - 52)" .
    have "rat_of_int \<bar>M\<bar> = of_int (2 ^ 53)" using True by (simp only:)
    then have "\<bar>x\<bar> = 2 ^ 53 * pow2 (e - 52)" by (simp add: xM abs_mult)
    also have "\<dots> = pow2 (e + 1)" by (simp add: pow2_53_quantum q e_def)
    finally have ax: "\<bar>x\<bar> = pow2 (e + 1)" .
    then have "0 < \<bar>x\<bar>" by simp
    then have "x \<noteq> 0" by simp
    moreover have "\<bar>x\<bar> < pow2 (e + 2)" using ax by simp
    ultimately have "ilog2 \<bar>x\<bar> < e + 2" by (rule ilog2_less)
    then have "expo x \<le> e + 1" using e by (simp add: expo_def)
    then show ?thesis using x2 by (rule on_finer_grid)
  next
    case False
    then have lt: "\<bar>M\<bar> < 2 ^ 53" using M by simp
    show ?thesis
    proof (cases "x = 0")
      case True
      then show ?thesis by simp
    next
      case nz: False
      have "rat_of_int \<bar>M\<bar> < of_int (2 ^ 53)" using lt by (simp only: of_int_less_iff)
      then have "\<bar>x\<bar> < 2 ^ 53 * pow2 (e - 52)" by (simp add: xM abs_mult)
      also have "\<dots> = pow2 (e + 1)" by (simp add: pow2_53_quantum q e_def)
      finally have "ilog2 \<bar>x\<bar> < e + 1" using nz by (intro ilog2_less)
      then have "expo x \<le> e" using e by (simp add: expo_def)
      then show ?thesis using xM by (rule on_finer_grid)
    qed
  qed
  then obtain k where "x = of_int k * quantum x" ..
  then have "round_to x = x" by (rule round_to_grid)
  then show ?thesis by (simp add: x_def)
qed

lemma rnd_idem:
  assumes "rnd z = Fin x"
  shows "rnd x = Fin x"
proof (cases "z = 0")
  case True
  then show ?thesis using assms by (auto simp: rnd_def)
next
  case False
  then have x: "x = round_to z" "\<not> pow2 1024 \<le> \<bar>round_to z\<bar>"
    using assms by (auto simp: rnd_def split: if_splits)
  then show ?thesis using round_to_idem [of z] by (simp add: rnd_def)
qed

lemma rnd_minus: "rnd (- x) = fneg (rnd x)"
  by (simp add: rnd_def round_to_minus)

section \<open>What a breakdown contains\<close>

lemma calculateCosts_None_iff:
  "calculateCosts st = None \<longleftrightarrow>
     falsy (parseFloat (carValue st)) \<or>
     find (\<lambda>e. engine_value e = engineSize st) engineSizeOptions = None \<or>
     find (\<lambda>a. age_value a = age st) ageOptions = None"
proof -
  have e: "find (\<lambda>e. engine_value e = []) engineSizeOptions = None"
    by (simp add: engineSizeOptions_def)
  have a: "find (\<lambda>a. age_value a = []) ageOptions = None"
    by (simp add: ageOptions_def)
  show ?thesis
    using e a by (auto simp: calculateCosts_def Let_def split: option.splits)
qed

lemma calculateCosts_SomeD:
  assumes "calculateCosts st = Some r"
  obtains selectedEngine selectedAge where
    "\<not> falsy (parseFloat (carValue st))"
    "find (\<lambda>e. engine_value e = engineSize st) engineSizeOptions = Some selectedEngine"
    "find (\<lambda>a. age_value a = age st) ageOptions = Some selectedAge"
    "originalValue r = parseFloat (carValue st)"
    "adjustedValue r = fmul (fmul (parseFloat (carValue st)) (multiplier selectedEngine))
                            (age_depreciationFactor selectedAge)"
    "importDuty r = fmul (adjustedValue r) (importDutyRate (kraData st))"
    "exciseDuty r = fmul (adjustedValue r) (exciseDutyRate (kraData st))"
    "vat r = fmul (fadd (fadd (adjustedValue r) (importDuty r)) (exciseDuty r)) (vatRate (kraData st))"
    "shippingCost r =
       or_default (get_property (shippingRates st) (origin st)) (Num (rnd 150000))"
    "clearingFees r = rnd 85000" "inspectionFees r = rnd 15000"
    "documentationFees r = rnd 25000" "kraFees r = rnd 5000" "ntsa_fees r = rnd 3000"
    "portHandling r = rnd 12000"
    "ourServiceFee r = fmul (adjustedValue r) (rnd (3 / 100))"
    "totalCost r =
       js_plus (js_plus (js_plus (js_plus (js_plus (js_plus (js_plus (js_plus
         (js_plus (js_plus (js_plus
         (Num (adjustedValue r)) (Num (importDuty r))) (Num (exciseDuty r))) (Num (vat r)))
         (shippingCost r)) (Num (clearingFees r))) (Num (inspectionFees r)))
         (Num (documentationFees r))) (Num (kraFees r))) (Num (ntsa_fees r)))
         (Num (portHandling r))) (Num (ourServiceFee r))"
    "engineMultiplier r = multiplier selectedEngine"
    "depreciationFactor r = age_depreciationFactor selectedAge"
  using assms
  by (auto simp: calculateCosts_def Let_def split: if_splits option.splits)

section \<open>Evaluation on concrete inputs\<close>

text \<open>
  Floor and ceiling of a quotient of numerals, and the bit length of a numeral: what
  the simplifier needs to run \<open>rnd\<close> and \<open>parseFloat\<close> on a concrete input.
\<close>

lemma floor_rat_numeral_div [simp]:
  "\<lfloor>(numeral a :: rat) / numeral b\<rfloor> = numeral a div numeral b"
  using floor_divide_of_int_eq [of "numeral a" "numeral b", where ?'a = rat] by simp

lemma floor_rat_neg_numeral_div [simp]:
  "\<lfloor>- ((numeral a :: rat) / numeral b)\<rfloor> = - numeral a div numeral b"
  using floor_divide_of_int_eq [of "- numeral a" "numeral b", where ?'a = rat] by simp

lemma ceiling_rat_numeral_div [simp]:
  "\<lceil>(numeral a :: rat) / numeral b\<rceil> = - ((- numeral a) div numeral b)"
  using ceiling_divide_eq_div [of "numeral a" "numeral b", where ?'a = rat] by simp

lemmas bitlen_eval = compute_bitlen [of "numeral a"] compute_bitlen [of 1] for a

lemmas rnd_eval =
  rnd_def round_to_def quantum_def expo_def ilog2_def pow2_def round_half_even_def bitlen_eval Let_def

lemmas parse_eval =
  parseFloat_def StrUnsignedDecimalLiteral_def is_ws_def is_digit_def digits_val_def pow10_def

lemmas calc_eval =
  calculateCosts_def engineSizeOptions_def ageOptions_def or_default_def get_property_def
  inherited_names_def

lemmas run_eval = scenario_def calc_eval kraData_init_def shippingRates_init_def parse_eval rnd_eval

subsection \<open>Known roundings and parses\<close>

text \<open>
  The numbers nearest to one tenth and to one third; integers above \<open>2 ^ 53\<close>, where
  only the even ones are numbers and a tie goes to the multiple of four; and strings as
  \<^verbatim>\<open>parseFloat\<close> reads them: leading white space, signs, fractions, exponents, the
  longest numeric prefix, and \<open>NaN\<close> without one.
\<close>

lemma rnd_examples:
  "rnd (1 / 10) = Fin (3602879701896397 / 36028797018963968)"
  "rnd (- (1 / 10)) = Fin (- (3602879701896397 / 36028797018963968))"
  "rnd (1 / 3) = Fin (6004799503160661 / 18014398509481984)"
  "rnd (2 ^ 53 + 1) = Fin (2 ^ 53)"
  "rnd (2 ^ 53 + 2) = Fin (2 ^ 53 + 2)"
  "rnd (2 ^ 53 + 3) = Fin (2 ^ 53 + 4)"
  "fadd (rnd (1 / 10)) (rnd (2 / 10)) = Fin (1351079888211149 / 4503599627370496)"
  by (simp_all add: rnd_eval cong: let_weak_cong)

lemma parseFloat_examples:
  "parseFloat ''  -12.5e-1x'' = Fin (- (5 / 4))"
  "parseFloat ''.5'' = Fin (1 / 2)"
  "parseFloat ''5.e3'' = Fin 5000"
  "parseFloat ''1e'' = Fin 1"
  "parseFloat ''12abc'' = Fin 12"
  "parseFloat ''0.1'' = Fin (3602879701896397 / 36028797018963968)"
  "parseFloat ''.'' = NaN"
  "parseFloat ''e5'' = NaN"
  "parseFloat ''-0'' = Fin 0"
  "parseFloat ''-Infinity'' = NegInf"
  by (simp_all add: parse_eval rnd_eval cong: let_weak_cong)

subsection \<open>The literals of the source\<close>

lemma rnd_numeral_small [simp]: "rnd 150000 = Fin 150000" "rnd 85000 = Fin 85000" "rnd 15000 = Fin 15000"
  "rnd 25000 = Fin 25000" "rnd 5000 = Fin 5000" "rnd 3000 = Fin 3000" "rnd 12000 = Fin 12000"
  "rnd 200000 = Fin 200000" "rnd 180000 = Fin 180000" "rnd 1 = Fin 1"
  by (simp_all add: rnd_eval cong: let_weak_cong)

lemma engine_multipliers:
  "map multiplier engineSizeOptions =
     [Fin 1, Fin (2476979795053773 / 2251799813685248),
      Fin (5404319552844595 / 4503599627370496), Fin (5854679515581645 / 4503599627370496),
      Fin (3152519739159347 / 2251799813685248), Fin (3 / 2),
      Fin (3602879701896397 / 2251799813685248)]"
  by (simp add: engineSizeOptions_def rnd_eval cong: let_weak_cong)

lemma age_factors:
  "map age_depreciationFactor ageOptions =
     [Fin 1, Fin (4278419646001971 / 4503599627370496),
      Fin (8106479329266893 / 9007199254740992), Fin (7656119366529843 / 9007199254740992),
      Fin (3602879701896397 / 4503599627370496), Fin (3 / 4)]"
  by (simp add: ageOptions_def rnd_eval cong: let_weak_cong)

lemma rnd_8_5: "rnd (8 / 5) = Fin (3602879701896397 / 2251799813685248)"
  by (simp add: rnd_eval cong: let_weak_cong)

lemma parse_values:
  "parseFloat [] = NaN" "parseFloat ''abc'' = NaN" "parseFloat ''0'' = Fin 0"
  "parseFloat ''2500000'' = Fin 2500000" "parseFloat ''-2500000'' = Fin (- 2500000)"
  by (simp_all add: parse_eval rnd_eval cong: let_weak_cong)

lemma find_engine_2000:
  "find (\<lambda>e. engine_value e = ''2000'') engineSizeOptions =
     Some \<lparr>engine_value = ''2000'', engine_label = ''1501-2000cc'', multiplier = rnd (12 / 10)\<rparr>"
  by (simp add: engineSizeOptions_def)

lemma find_engine_4000:
  "find (\<lambda>e. engine_value e = ''4000'') engineSizeOptions =
     Some \<lparr>engine_value = ''4000'', engine_label = ''Above 4000cc'', multiplier = rnd (16 / 10)\<rparr>"
  by (simp add: engineSizeOptions_def)

lemma find_age_1:
  "find (\<lambda>a. age_value a = ''1'') ageOptions =
     Some \<lparr>age_value = ''1'', age_label = ''Less than 1 year'', age_depreciationFactor = rnd 1\<rparr>"
  by (simp add: ageOptions_def)

lemma find_age_2:
  "find (\<lambda>a. age_value a = ''2'') ageOptions =
     Some \<lparr>age_value = ''2'', age_label = ''1-2 years'', age_depreciationFactor = rnd (95 / 100)\<rparr>"
  by (simp add: ageOptions_def)

lemma scenario_sel [simp]:
  "carValue (scenario v e a org) = v" "engineSize (scenario v e a org) = e"
  "age (scenario v e a org) = a" "origin (scenario v e a org) = org"
  "kraData (scenario v e a org) = kraData_init []"
  "shippingRates (scenario v e a org) = shippingRates_init"
  by (simp_all add: scenario_def)

section \<open>Bounds on products and sums\<close>

lemma num_le_trans: "num_le a b \<Longrightarrow> num_le b c \<Longrightarrow> num_le a c"
  by (cases a; cases b; cases c) simp_all

lemma rnd_nonneg_cases:
  assumes "0 \<le> z"
  obtains "rnd z = PosInf" | y where "rnd z = Fin y" "0 \<le> y" "rnd y = Fin y"
proof (cases "rnd z")
  case NaN
  then show ?thesis by (simp add: rnd_def split: if_splits)
next
  case PosInf
  then show ?thesis by (rule that(1))
next
  case NegInf
  then show ?thesis using assms by (simp add: rnd_def split: if_splits)
next
  case (Fin y)
  then have "y = round_to z" by (auto simp: rnd_def split: if_splits)
  then have "0 \<le> y" using assms by (simp add: round_to_nonneg)
  then show ?thesis using Fin rnd_idem [OF Fin] by (intro that(2))
qed

lemma parseFloat_double:
  assumes "parseFloat s = Fin x"
  shows "rnd x = Fin x"
proof -
  obtain neg u where nu: "opt_sign (dropWhile is_ws s) = (neg, u)" by force
  then obtain v where v: "StrUnsignedDecimalLiteral u = Some v"
    and r: "Fin x = (if neg then fneg v else v)"
    using assms by (auto simp: parseFloat_def split: option.splits)
  from v obtain y where "v = PosInf \<or> v = rnd y"
    by (auto simp: StrUnsignedDecimalLiteral_def Let_def split: if_splits)
  then have "Fin x = rnd y \<or> Fin x = rnd (- y)"
    using r by (auto simp: rnd_minus split: if_splits)
  then show ?thesis using rnd_idem [of y x] rnd_idem [of "- y" x] by auto
qed

lemma fmul_le_left:
  assumes "w = PosInf \<or> (\<exists>y. w = Fin y \<and> 0 \<le> y \<and> rnd y = Fin y)" "0 < d" "d \<le> 1"
  shows "num_le (fmul w (Fin d)) w"
  using assms(1)
proof
  assume "w = PosInf"
  then show ?thesis using assms(2) by (simp add: signed_inf_def)
next
  assume "\<exists>y. w = Fin y \<and> 0 \<le> y \<and> rnd y = Fin y"
  then obtain y where y: "w = Fin y" "0 \<le> y" "rnd y = Fin y" by auto
  have "0 \<le> y * d" "y * d \<le> y" using y(2) assms(2,3) by (simp_all add: mult_left_le)
  then have "num_le (rnd (y * d)) (rnd y)" by (rule rnd_mono_nonneg)
  then show ?thesis using y by simp
qed

lemma selected_multiplier:
  assumes "find (\<lambda>e. engine_value e = s) engineSizeOptions = Some selectedEngine"
  obtains m where "multiplier selectedEngine = Fin m" "1 \<le> m"
    "m \<le> 3602879701896397 / 2251799813685248"
proof -
  have "selectedEngine \<in> set engineSizeOptions"
    using assms by (auto simp: find_Some_iff in_set_conv_nth)
  then have "multiplier selectedEngine \<in> set (map multiplier engineSizeOptions)" by simp
  then show ?thesis unfolding engine_multipliers by (auto intro: that)
qed

lemma selected_factor:
  assumes "find (\<lambda>a. age_value a = s) ageOptions = Some selectedAge"
  obtains d where "age_depreciationFactor selectedAge = Fin d" "0 < d" "d \<le> 1"
proof -
  have "selectedAge \<in> set ageOptions"
    using assms by (auto simp: find_Some_iff in_set_conv_nth)
  then have "age_depreciationFactor selectedAge \<in> set (map age_depreciationFactor ageOptions)"
    by simp
  then show ?thesis unfolding age_factors by (auto intro: that)
qed

lemma rnd_overflow:
  assumes "pow2 1024 \<le> x"
  shows "rnd x = PosInf"
proof -
  have x: "0 < x" using assms pow2_pos [of 1024] by linarith
  have "pow2 1024 < pow2 (ilog2 x + 1)" using assms ilog2_bounds(2) [OF x] by linarith
  then have e: "1024 \<le> ilog2 x" by simp
  then have "pow2 1024 \<le> pow2 (ilog2 x)" by simp
  also have "\<dots> \<le> round_to x" using x e by (intro round_to_lower) simp_all
  finally have "pow2 1024 \<le> \<bar>round_to x\<bar>" by simp
  then show ?thesis using x by (simp add: rnd_def)
qed

lemma rnd_rel:
  assumes "pow2 (- 1022) \<le> \<bar>x\<bar>" "\<bar>x\<bar> * (1 + 1 / 2 ^ 53) < pow2 1024"
  shows "\<exists>y. rnd x = Fin y \<and> \<bar>y - x\<bar> \<le> \<bar>x\<bar> / 2 ^ 53"
proof -
  have "0 < \<bar>x\<bar>" using assms(1) pow2_pos [of "- 1022"] by linarith
  then have x: "x \<noteq> 0" by simp
  have err: "\<bar>round_to x - x\<bar> \<le> \<bar>x\<bar> / 2 ^ 53" by (rule round_to_error [OF assms(1)])
  have "\<bar>round_to x\<bar> \<le> \<bar>x\<bar> + \<bar>round_to x - x\<bar>" by simp
  also have "\<dots> \<le> \<bar>x\<bar> * (1 + 1 / 2 ^ 53)" using err by (simp add: algebra_simps)
  finally have "\<bar>round_to x\<bar> < pow2 1024" using assms(2) by simp
  then have "rnd x = Fin (round_to x)" using x by (simp add: rnd_def)
  then show ?thesis using err by simp
qed

lemma rnd_scaled:
  assumes a: "pow2 (- 1000) \<le> \<bar>a\<bar>" "\<bar>a\<bar> \<le> pow2 1000"
    and k: "1 / 2 ^ 20 \<le> k" "k \<le> 2 ^ 20"
  shows "\<exists>k'. rnd (a * k) = Fin (a * k') \<and> k * (1 - 1 / 2 ^ 53) \<le> k' \<and> k' \<le> k * (1 + 1 / 2 ^ 53)"
proof -
  have a0: "0 < \<bar>a\<bar>" using a(1) pow2_pos [of "- 1000"] by linarith
  have k0: "0 < k" using k(1) by (simp add: field_simps)
  have ak: "\<bar>a * k\<bar> = \<bar>a\<bar> * k" using k0 by (simp add: abs_mult)
  have "pow2 (- 1022) = pow2 (- 1000) * (1 / 2 ^ 22)"
    using pow2_add [of "- 1000" "- 22"] by (simp add: pow2_def)
  also have "\<dots> \<le> \<bar>a\<bar> * k"
    using a(1) k(1) by (intro mult_mono) (simp_all add: less_imp_le)
  finally have lo: "pow2 (- 1022) \<le> \<bar>a * k\<bar>" by (simp only: ak)
  have "\<bar>a\<bar> * k * (1 + 1 / 2 ^ 53) \<le> pow2 1000 * 2 ^ 20 * 2"
    using a(2) k(2) a0 k0 by (intro mult_mono) (simp_all add: less_imp_le)
  also have "\<dots> = pow2 1021" using pow2_add [of 1000 21] by (simp add: pow2_numeral)
  also have "\<dots> < pow2 1024" by simp
  finally have hi: "\<bar>a * k\<bar> * (1 + 1 / 2 ^ 53) < pow2 1024" by (simp only: ak)
  from rnd_rel [OF lo hi] obtain y where y: "rnd (a * k) = Fin y"
    and err: "\<bar>y - a * k\<bar> \<le> \<bar>a * k\<bar> / 2 ^ 53" by auto
  define k' where "k' = y / a"
  have a_ne: "a \<noteq> 0" using a0 by simp
  have ya: "y = a * k'" using a_ne by (simp add: k'_def)
  have "\<bar>a\<bar> * \<bar>k' - k\<bar> = \<bar>y - a * k\<bar>" by (simp add: ya abs_mult [symmetric] right_diff_distrib)
  also have "\<dots> \<le> \<bar>a\<bar> * (k / 2 ^ 53)" using err by (simp add: ak)
  finally have "\<bar>k' - k\<bar> \<le> k / 2 ^ 53" using a0 by (simp only: mult_le_cancel_left_pos)
  then have "k' - k \<le> k / 2 ^ 53" "k - k' \<le> k / 2 ^ 53"
    by (simp_all only: abs_le_iff minus_diff_eq)
  then have "k * (1 - 1 / 2 ^ 53) \<le> k'" "k' \<le> k * (1 + 1 / 2 ^ 53)"
    by (simp_all add: algebra_simps)
  then show ?thesis using y ya by auto
qed

lemma vat_differs_core:
  fixes a i e c :: rat
  assumes a: "pow2 (- 1000) \<le> \<bar>a\<bar>" "\<bar>a\<bar> \<le> pow2 1000"
    and i: "1 / 1000000 \<le> i" "i \<le> 1"
    and e: "1 / 1000000 \<le> e" "e \<le> 1"
    and c: "1 / 1000000 \<le> c" "c \<le> 1"
  shows "fmul (fadd (fadd (Fin a) (fmul (Fin a) (Fin i))) (fmul (Fin a) (Fin e))) (Fin c)
         \<noteq> fmul (Fin a) (Fin c)"
proof -
  note sc = rnd_scaled [OF a]
  have "0 < \<bar>a\<bar>" using a(1) pow2_pos [of "- 1000"] by linarith
  then have a0: "a \<noteq> 0" by simp
  have "1 / 2 ^ 20 \<le> i" "i \<le> 2 ^ 20" using i by simp_all
  from sc [OF this] obtain k1 where k1: "rnd (a * i) = Fin (a * k1)"
    "i * (1 - 1 / 2 ^ 53) \<le> k1" "k1 \<le> i * (1 + 1 / 2 ^ 53)" by auto
  have k1b: "0 \<le> k1" "k1 \<le> 2" using k1(2,3) i by simp_all
  have "1 / 2 ^ 20 \<le> 1 + k1" "1 + k1 \<le> 2 ^ 20" using k1b by simp_all
  from sc [OF this] obtain k2 where k2: "rnd (a * (1 + k1)) = Fin (a * k2)"
    "(1 + k1) * (1 - 1 / 2 ^ 53) \<le> k2" "k2 \<le> (1 + k1) * (1 + 1 / 2 ^ 53)" by auto
  have "1 / 2 ^ 20 \<le> e" "e \<le> 2 ^ 20" using e by simp_all
  from sc [OF this] obtain k3 where k3: "rnd (a * e) = Fin (a * k3)"
    "e * (1 - 1 / 2 ^ 53) \<le> k3" "k3 \<le> e * (1 + 1 / 2 ^ 53)" by auto
  have k3b: "0 \<le> k3" "k3 \<le> 2" using k3(2,3) e by simp_all
  have k2b: "1 + 999998 / 10 ^ 12 \<le> k2" "k2 \<le> 4" using k2(2,3) k1(2,3) i by simp_all
  have "1 / 2 ^ 20 \<le> k2 + k3" "k2 + k3 \<le> 2 ^ 20" using k2b k3b by simp_all
  from sc [OF this] obtain k4 where k4: "rnd (a * (k2 + k3)) = Fin (a * k4)"
    "(k2 + k3) * (1 - 1 / 2 ^ 53) \<le> k4" "k4 \<le> (k2 + k3) * (1 + 1 / 2 ^ 53)" by auto
  have k4b: "1 + 999997 / 10 ^ 12 \<le> k4" "k4 \<le> 8" using k4(2,3) k2b k3b by simp_all
  have c0: "0 < c" using c(1) by simp
  define kc where "kc = k4 * c"
  have "c \<le> kc" unfolding kc_def using k4b(1) c0 by simp
  moreover have "kc \<le> 8 * 1" unfolding kc_def using k4b c c0 by (intro mult_mono) simp_all
  ultimately have "1 / 2 ^ 20 \<le> kc" "kc \<le> 2 ^ 20" using c(1) by simp_all
  then have "1 / 2 ^ 20 \<le> k4 * c" "k4 * c \<le> 2 ^ 20" by (simp_all only: kc_def)
  from sc [OF this] obtain k5 where k5: "rnd (a * (k4 * c)) = Fin (a * k5)"
    "k4 * c * (1 - 1 / 2 ^ 53) \<le> k5" by auto
  have "1 / 2 ^ 20 \<le> c" "c \<le> 2 ^ 20" using c by simp_all
  from sc [OF this] obtain k6 where k6: "rnd (a * c) = Fin (a * k6)"
    "k6 \<le> c * (1 + 1 / 2 ^ 53)" by auto
  have "1 + 1 / 2 ^ 53 < k4 * (1 - 1 / 2 ^ 53)" using k4b(1) by simp
  then have "(1 + 1 / 2 ^ 53) * c < k4 * (1 - 1 / 2 ^ 53) * c"
    using c0 by (simp only: mult_less_cancel_right_pos)
  then have "k6 < k5" using k5(2) k6(2) by (simp add: mult.commute mult.left_commute)
  then have ne: "a * k5 \<noteq> a * k6" using a0 by simp
  have "fadd (Fin a) (fmul (Fin a) (Fin i)) = Fin (a * k2)"
    using k1(1) k2(1) by (simp add: distrib_left)
  then have "fadd (fadd (Fin a) (fmul (Fin a) (Fin i))) (fmul (Fin a) (Fin e)) = Fin (a * k4)"
    using k3(1) k4(1) by (simp add: distrib_left)
  then have "fmul (fadd (fadd (Fin a) (fmul (Fin a) (Fin i))) (fmul (Fin a) (Fin e))) (Fin c)
             = Fin (a * k5)"
    using k5(1) by (simp add: mult.assoc)
  then show ?thesis using k6(1) ne by simp
qed

section \<open>Runs of the calculator\<close>

lemma calculateCosts_runs:
  assumes "\<not> falsy (parseFloat (carValue st))"
    and "find (\<lambda>e. engine_value e = engineSize st) engineSizeOptions = Some selectedEngine"
    and "find (\<lambda>a. age_value a = age st) ageOptions = Some selectedAge"
  obtains r where "calculateCosts st = Some r"
    "originalValue r = parseFloat (carValue st)"
    "adjustedValue r = fmul (fmul (parseFloat (carValue st)) (multiplier selectedEngine))
                            (age_depreciationFactor selectedAge)"
    "importDuty r = fmul (adjustedValue r) (importDutyRate (kraData st))"
    "exciseDuty r = fmul (adjustedValue r) (exciseDutyRate (kraData st))"
    "vat r = fmul (fadd (fadd (adjustedValue r) (importDuty r)) (exciseDuty r)) (vatRate (kraData st))"
    "shippingCost r =
       or_default (get_property (shippingRates st) (origin st)) (Num (Fin 150000))"
    "engineMultiplier r = multiplier selectedEngine"
    "depreciationFactor r = age_depreciationFactor selectedAge"
proof -
  have "calculateCosts st \<noteq> None" using assms by (simp add: calculateCosts_None_iff)
  then obtain r where r: "calculateCosts st = Some r" by auto
  show ?thesis using r assms(2,3) by (auto elim!: calculateCosts_SomeD intro!: that [OF r])
qed

lemma shipping_of_run:
  assumes "\<not> falsy (parseFloat (carValue st))"
    and "find (\<lambda>e. engine_value e = engineSize st) engineSizeOptions = Some selectedEngine"
    and "find (\<lambda>a. age_value a = age st) ageOptions = Some selectedAge"
  shows "map_option shippingCost (calculateCosts st) =
           Some (or_default (get_property (shippingRates st) (origin st)) (Num (Fin 150000)))"
  using assms by (rule calculateCosts_runs) simp

lemma example_run:
  "calculateCosts
     \<lparr>carValue = ''2500000'', engineSize = ''2000'', age = ''2'', origin = ''japan'',
      kraData = kraData_init now, shippingRates = shippingRates_init\<rparr> =
   Some \<lparr>originalValue = Fin 2500000, adjustedValue = Fin 2850000, importDuty = Fin 712500,
         exciseDuty = Fin 712500, vat = Fin 684000, shippingCost = Num (Fin 150000),
         clearingFees = Fin 85000, inspectionFees = Fin 15000, documentationFees = Fin 25000,
         kraFees = Fin 5000, ntsa_fees = Fin 3000, portHandling = Fin 12000,
         ourServiceFee = Fin 85500, totalCost = Num (Fin 5339500),
         engineMultiplier = rnd (12 / 10), depreciationFactor = rnd (95 / 100)\<rparr>"
  by (simp add: calc_eval kraData_init_def shippingRates_init_def parse_eval rnd_eval
      cong: let_weak_cong)

lemma run_example: "calculateCosts (scenario ''2500000'' ''2000'' ''2'' ''japan'') = Some example_costs"
  unfolding scenario_def example_costs_def by (rule example_run)

lemma run_negative:
  "calculateCosts (scenario ''-2500000'' ''2000'' ''2'' ''japan'') =
   Some \<lparr>originalValue = Fin (- 2500000), adjustedValue = Fin (- 2850000),
         importDuty = Fin (- 712500), exciseDuty = Fin (- 712500), vat = Fin (- 684000),
         shippingCost = Num (Fin 150000), clearingFees = Fin 85000, inspectionFees = Fin 15000,
         documentationFees = Fin 25000, kraFees = Fin 5000, ntsa_fees = Fin 3000,
         portHandling = Fin 12000, ourServiceFee = Fin (- 85500), totalCost = Num (Fin (- 4749500)),
         engineMultiplier = rnd (12 / 10), depreciationFactor = rnd (95 / 100)\<rparr>"
  by (simp add: run_eval cong: let_weak_cong)

lemma run_new_car:
  "calculateCosts (scenario ''2500000'' ''2000'' ''1'' ''japan'') =
   Some \<lparr>originalValue = Fin 2500000, adjustedValue = Fin 3000000,
         importDuty = Fin 750000, exciseDuty = Fin 750000, vat = Fin 720000,
         shippingCost = Num (Fin 150000), clearingFees = Fin 85000, inspectionFees = Fin 15000,
         documentationFees = Fin 25000, kraFees = Fin 5000, ntsa_fees = Fin 3000,
         portHandling = Fin 12000, ourServiceFee = Fin 90000, totalCost = Num (Fin 5605000),
         engineMultiplier = rnd (12 / 10), depreciationFactor = Fin 1\<rparr>"
  by (simp add: run_eval cong: let_weak_cong)


lemma run_small_engine:
  "calculateCosts (scenario ''2500000'' ''1000'' ''2'' ''japan'') =
   Some \<lparr>originalValue = Fin 2500000, adjustedValue = Fin 2375000,
         importDuty = Fin 593750, exciseDuty = Fin 593750, vat = Fin 570000,
         shippingCost = Num (Fin 150000), clearingFees = Fin 85000, inspectionFees = Fin 15000,
         documentationFees = Fin 25000, kraFees = Fin 5000, ntsa_fees = Fin 3000,
         portHandling = Fin 12000, ourServiceFee = Fin 71250, totalCost = Num (Fin 4498750),
         engineMultiplier = Fin 1, depreciationFactor = rnd (95 / 100)\<rparr>"
  by (simp add: run_eval cong: let_weak_cong)

lemma run_tiny_rates:
  "calculateCosts ((scenario ''2500000'' ''1000'' ''1'' ''japan'') \<lparr>kraData := tiny_rates\<rparr>) =
   Some \<lparr>originalValue = Fin 2500000, adjustedValue = Fin 2500000,
         importDuty = Fin (7737125245533627 / 309485009821345068724781056),
         exciseDuty = Fin (7737125245533627 / 309485009821345068724781056),
         vat = Fin 400000,
         shippingCost = Num (Fin 150000), clearingFees = Fin 85000, inspectionFees = Fin 15000,
         documentationFees = Fin 25000, kraFees = Fin 5000, ntsa_fees = Fin 3000,
         portHandling = Fin 12000, ourServiceFee = Fin 75000, totalCost = Num (Fin 3270000),
         engineMultiplier = Fin 1, depreciationFactor = Fin 1\<rparr>"
  by (simp add: run_eval tiny_rates_def cong: let_weak_cong)

lemma naive_tiny_rates: "fmul (Fin 2500000) (vatRate tiny_rates) = Fin 400000"
  by (simp add: tiny_rates_def rnd_eval cong: let_weak_cong)

lemma run_with_rates:
  "map_option shippingCost
     (calculateCosts ((scenario ''2500000'' ''2000'' ''2'' ''japan'') \<lparr>shippingRates := t\<rparr>)) =
   Some (or_default (get_property t ''japan'') (Num (Fin 150000)))"
proof -
  let ?S = "(scenario ''2500000'' ''2000'' ''2'' ''japan'') \<lparr>shippingRates := t\<rparr>"
  have "\<not> falsy (parseFloat (carValue ?S))" by (simp add: parse_values)
  moreover have "find (\<lambda>e. engine_value e = engineSize ?S) engineSizeOptions =
      Some \<lparr>engine_value = ''2000'', engine_label = ''1501-2000cc'', multiplier = rnd (12 / 10)\<rparr>"
    by (simp add: find_engine_2000)
  moreover have "find (\<lambda>a. age_value a = age ?S) ageOptions =
      Some \<lparr>age_value = ''2'', age_label = ''1-2 years'', age_depreciationFactor = rnd (95 / 100)\<rparr>"
    by (simp add: find_age_2)
  ultimately have "map_option shippingCost (calculateCosts ?S) =
      Some (or_default (get_property (shippingRates ?S) (origin ?S)) (Num (Fin 150000)))"
    by (rule shipping_of_run)
  then show ?thesis by simp
qed

lemma big_value: "\<exists>y. parseFloat ''1.5e308'' = Fin y \<and> 14 * 10 ^ 307 \<le> y"
proof -
  have p: "parseFloat ''1.5e308'' = rnd (15 * 10 ^ 307)" by (simp add: parse_eval cong: let_weak_cong)
  have "pow2 (- 1022) \<le> \<bar>15 * 10 ^ 307 :: rat\<bar>" by (simp add: pow2_def)
  moreover have "\<bar>15 * 10 ^ 307 :: rat\<bar> * (1 + 1 / 2 ^ 53) < pow2 1024" by (simp add: pow2_def)
  ultimately obtain y where y: "rnd (15 * 10 ^ 307) = Fin y"
    "\<bar>y - 15 * 10 ^ 307\<bar> \<le> \<bar>15 * 10 ^ 307\<bar> / 2 ^ 53" using rnd_rel by blast
  from y(2) have "14 * 10 ^ 307 \<le> y" by (simp add: abs_le_iff)
  then show ?thesis using p y(1) by simp
qed

lemma big_value_overflows:
  assumes "14 * 10 ^ 307 \<le> y"
  shows "fmul (Fin y) (rnd (16 / 10)) = PosInf"
proof -
  have "pow2 1024 \<le> 14 * 10 ^ 307 * (3602879701896397 / 2251799813685248)"
    by (simp add: pow2_def)
  also have "\<dots> \<le> y * (3602879701896397 / 2251799813685248)"
    using assms by (intro mult_right_mono) simp_all
  finally show ?thesis by (simp add: rnd_8_5 rnd_overflow)
qed

section \<open>The claims of the specification\<close>

text \<open>
  Claim C1. In every breakdown the VAT is the product of the VAT rate with the sum of
  the adjusted value, the import duty and the excise duty, each duty being the product
  of the adjusted value with its rate: the base of the VAT includes both duties. The
  claim adds that for nonzero rates this VAT differs from the product of the adjusted
  value alone with the VAT rate. In binary64 that holds when the adjusted value is
  finite, of a magnitude between \<open>2 ^ - 1000\<close> and \<open>2 ^ 1000\<close>, and each of the three
  rates lies between one millionth and one, which covers the rates 25%, 25% and 16% of
  the source; it is what the theorem states. It fails outside: with the rates of the
  source, the value \<^verbatim>\<open>1.5e308\<close> in the band above 4000cc overflows, and the adjusted
  value, the base and both products are \<open>Infinity\<close>; with positive rates of
  \<open>10 ^ - 17\<close>, the duties on 2,500,000 are smaller than half the spacing of the numbers
  around 2,500,000, the base rounds to the adjusted value and both products are 400,000.
\<close>

theorem vat_on_duty_inclusive_base:
  assumes "calculateCosts st = Some r"
  shows "vat r = fmul (fadd (fadd (adjustedValue r) (importDuty r)) (exciseDuty r))
                   (vatRate (kraData st)) \<and>
         importDuty r = fmul (adjustedValue r) (importDutyRate (kraData st)) \<and>
         exciseDuty r = fmul (adjustedValue r) (exciseDutyRate (kraData st)) \<and>
         (magnitude_between (pow2 (- 1000)) (pow2 1000) (adjustedValue r) \<and>
          rate_between (1 / 1000000) 1 (importDutyRate (kraData st)) \<and>
          rate_between (1 / 1000000) 1 (exciseDutyRate (kraData st)) \<and>
          rate_between (1 / 1000000) 1 (vatRate (kraData st)) \<longrightarrow>
          vat r \<noteq> fmul (adjustedValue r) (vatRate (kraData st)))"
proof -
  from assms have f:
    "importDuty r = fmul (adjustedValue r) (importDutyRate (kraData st))"
    "exciseDuty r = fmul (adjustedValue r) (exciseDutyRate (kraData st))"
    "vat r = fmul (fadd (fadd (adjustedValue r) (importDuty r)) (exciseDuty r))
               (vatRate (kraData st))"
    by (auto elim!: calculateCosts_SomeD)
  have "vat r \<noteq> fmul (adjustedValue r) (vatRate (kraData st))"
    if m: "magnitude_between (pow2 (- 1000)) (pow2 1000) (adjustedValue r)"
      and i: "rate_between (1 / 1000000) 1 (importDutyRate (kraData st))"
      and e: "rate_between (1 / 1000000) 1 (exciseDutyRate (kraData st))"
      and c: "rate_between (1 / 1000000) 1 (vatRate (kraData st))"
  proof -
    from m obtain a where a: "adjustedValue r = Fin a" "pow2 (- 1000) \<le> \<bar>a\<bar>" "\<bar>a\<bar> \<le> pow2 1000"
      by (cases "adjustedValue r") simp_all
    from i obtain i' where i': "importDutyRate (kraData st) = Fin i'" "1 / 1000000 \<le> i'" "i' \<le> 1"
      by (cases "importDutyRate (kraData st)") simp_all
    from e obtain e' where e': "exciseDutyRate (kraData st) = Fin e'" "1 / 1000000 \<le> e'" "e' \<le> 1"
      by (cases "exciseDutyRate (kraData st)") simp_all
    from c obtain c' where c': "vatRate (kraData st) = Fin c'" "1 / 1000000 \<le> c'" "c' \<le> 1"
      by (cases "vatRate (kraData st)") simp_all
    show ?thesis
      unfolding f a(1) i'(1) e'(1) c'(1)
      by (rule vat_differs_core [OF a(2,3) i'(2,3) e'(2,3) c'(2,3)])
  qed
  then show ?thesis using f by blast
qed

theorem vat_on_duty_inclusive_base_witness:
  "calculateCosts (scenario ''2500000'' ''2000'' ''2'' ''japan'') = Some example_costs \<and>
   magnitude_between (pow2 (- 1000)) (pow2 1000) (adjustedValue example_costs) \<and>
   rate_between (1 / 1000000) 1 (importDutyRate (kraData (scenario ''2500000'' ''2000'' ''2'' ''japan''))) \<and>
   rate_between (1 / 1000000) 1 (exciseDutyRate (kraData (scenario ''2500000'' ''2000'' ''2'' ''japan''))) \<and>
   rate_between (1 / 1000000) 1 (vatRate (kraData (scenario ''2500000'' ''2000'' ''2'' ''japan''))) \<and>
   vat example_costs =
     fmul (fadd (fadd (adjustedValue example_costs) (importDuty example_costs))
       (exciseDuty example_costs)) (vatRate (kraData (scenario ''2500000'' ''2000'' ''2'' ''japan''))) \<and>
   vat example_costs \<noteq>
     fmul (adjustedValue example_costs) (vatRate (kraData (scenario ''2500000'' ''2000'' ''2'' ''japan'')))"
proof -
  have m: "magnitude_between (pow2 (- 1000)) (pow2 1000) (adjustedValue example_costs)"
    by (simp add: example_costs_def pow2_def)
  have r: "rate_between (1 / 1000000) 1 (importDutyRate (kraData (scenario ''2500000'' ''2000'' ''2'' ''japan'')))"
    "rate_between (1 / 1000000) 1 (exciseDutyRate (kraData (scenario ''2500000'' ''2000'' ''2'' ''japan'')))"
    "rate_between (1 / 1000000) 1 (vatRate (kraData (scenario ''2500000'' ''2000'' ''2'' ''japan'')))"
    by (simp_all add: scenario_def kraData_init_def rnd_eval cong: let_weak_cong)
  show ?thesis
    using vat_on_duty_inclusive_base [OF run_example] run_example m r by blast
qed

theorem vat_equals_naive_counterexample:
  "map_option adjustedValue (calculateCosts (scenario ''1.5e308'' ''4000'' ''1'' ''japan'')) = Some PosInf \<and>
   map_option vat (calculateCosts (scenario ''1.5e308'' ''4000'' ''1'' ''japan'')) = Some PosInf \<and>
   fmul PosInf (vatRate (kraData (scenario ''1.5e308'' ''4000'' ''1'' ''japan''))) = PosInf \<and>
   map_option adjustedValue
     (calculateCosts ((scenario ''2500000'' ''1000'' ''1'' ''japan'') \<lparr>kraData := tiny_rates\<rparr>)) =
     Some (Fin 2500000) \<and>
   map_option vat
     (calculateCosts ((scenario ''2500000'' ''1000'' ''1'' ''japan'') \<lparr>kraData := tiny_rates\<rparr>)) =
     Some (Fin 400000) \<and>
   fmul (Fin 2500000) (vatRate tiny_rates) = Fin 400000 \<and>
   num_lt (Fin 0) (importDutyRate tiny_rates) \<and> num_lt (Fin 0) (exciseDutyRate tiny_rates) \<and>
   num_lt (Fin 0) (vatRate tiny_rates)"
proof -
  let ?S = "scenario ''1.5e308'' ''4000'' ''1'' ''japan''"
  obtain y where y: "parseFloat ''1.5e308'' = Fin y" "14 * 10 ^ 307 \<le> y"
    using big_value by blast
  have k: "kraData ?S = kraData_init []" "carValue ?S = ''1.5e308''"
    "engineSize ?S = ''4000''" "age ?S = ''1''"
    by (simp_all add: scenario_def)
  have "\<not> falsy (parseFloat (carValue ?S))" using y by (simp add: k)
  moreover have "find (\<lambda>e. engine_value e = engineSize ?S) engineSizeOptions =
      Some \<lparr>engine_value = ''4000'', engine_label = ''Above 4000cc'', multiplier = rnd (16 / 10)\<rparr>"
    unfolding k by (rule find_engine_4000)
  moreover have "find (\<lambda>a. age_value a = age ?S) ageOptions =
      Some \<lparr>age_value = ''1'', age_label = ''Less than 1 year'', age_depreciationFactor = rnd 1\<rparr>"
    unfolding k by (rule find_age_1)
  ultimately obtain r where r: "calculateCosts ?S = Some r"
    "adjustedValue r = fmul (fmul (parseFloat (carValue ?S)) (rnd (16 / 10))) (rnd 1)"
    "importDuty r = fmul (adjustedValue r) (importDutyRate (kraData ?S))"
    "exciseDuty r = fmul (adjustedValue r) (exciseDutyRate (kraData ?S))"
    "vat r = fmul (fadd (fadd (adjustedValue r) (importDuty r)) (exciseDuty r)) (vatRate (kraData ?S))"
    by (rule calculateCosts_runs) simp_all
  have adj: "adjustedValue r = PosInf"
    unfolding r(2) k(2) y(1) big_value_overflows [OF y(2)] by (simp add: signed_inf_def)
  have rates: "kraData_init [] =
      \<lparr>importDutyRate = Fin (1 / 4), exciseDutyRate = Fin (1 / 4),
       vatRate = Fin (5764607523034235 / 36028797018963968), lastUpdated = []\<rparr>"
    by (simp add: kraData_init_def rnd_eval cong: let_weak_cong)
  have v: "vat r = PosInf"
    unfolding r(5) r(3) r(4) adj k(1) rates by (simp add: signed_inf_def)
  have n: "fmul PosInf (vatRate (kraData ?S)) = PosInf"
    unfolding k(1) rates by (simp add: signed_inf_def)
  have t: "num_lt (Fin 0) (importDutyRate tiny_rates)" "num_lt (Fin 0) (exciseDutyRate tiny_rates)"
    "num_lt (Fin 0) (vatRate tiny_rates)"
    by (simp_all add: tiny_rates_def rnd_eval cong: let_weak_cong)
  show ?thesis
    using r(1) adj v n t naive_tiny_rates by (simp add: run_tiny_rates)
qed



text \<open>
  Claim C3. A declared value that is missing (the empty string), that is not numeric
  (\<open>parseFloat\<close> gives \<open>NaN\<close>) or that is zero gives no breakdown, whatever the
  other inputs; nothing is thrown, \<open>calculateCosts\<close> being a total function whose
  \<open>None\<close> is the \<^verbatim>\<open>null\<close> of the source. The claim says the same of every value
  below zero, which the guard \<^verbatim>\<open>!value\<close> does not reject: a negative value is
  truthy, and the breakdown is computed with negative amounts.
\<close>

theorem no_breakdown_without_value:
  "carValue st = [] \<or> parseFloat (carValue st) = NaN \<or> parseFloat (carValue st) = Fin 0 \<Longrightarrow>
     calculateCosts st = None"
  using parse_values(1) by (auto simp: calculateCosts_None_iff)

theorem no_breakdown_without_value_witness:
  "calculateCosts (scenario [] ''2000'' ''2'' ''japan'') = None \<and>
   parseFloat ''abc'' = NaN \<and>
   calculateCosts (scenario ''abc'' ''2000'' ''2'' ''japan'') = None \<and>
   parseFloat ''0'' = Fin 0 \<and>
   calculateCosts (scenario ''0'' ''2000'' ''2'' ''japan'') = None"
  using no_breakdown_without_value [of "scenario [] ''2000'' ''2'' ''japan''"]
    no_breakdown_without_value [of "scenario ''abc'' ''2000'' ''2'' ''japan''"]
    no_breakdown_without_value [of "scenario ''0'' ''2000'' ''2'' ''japan''"]
  by (simp add: parse_values)

theorem negative_value_counterexample:
  "parseFloat ''-2500000'' = Fin (- 2500000) \<and>
   num_le (Fin (- 2500000)) (Fin 0) \<and>
   map_option totalCost (calculateCosts (scenario ''-2500000'' ''2000'' ''2'' ''japan'')) =
     Some (Num (Fin (- 4749500)))"
  by (simp add: run_negative parse_values)

text \<open>
  Claim C4. A declaration whose engine band selector, or whose age band selector, is
  absent (the empty string) or is not the selector of a band of the table gives no
  breakdown, each of the two fields on its own and whatever the other inputs.
\<close>

theorem no_breakdown_without_band:
  "(engineSize st = [] \<longrightarrow> calculateCosts st = None) \<and>
   (age st = [] \<longrightarrow> calculateCosts st = None) \<and>
   (engineSize st \<notin> set (map engine_value engineSizeOptions) \<longrightarrow> calculateCosts st = None) \<and>
   (age st \<notin> set (map age_value ageOptions) \<longrightarrow> calculateCosts st = None)"
proof -
  have e: "calculateCosts st = None" if "engineSize st \<notin> set (map engine_value engineSizeOptions)"
    using that by (force simp: calculateCosts_None_iff find_None_iff)
  have a: "calculateCosts st = None" if "age st \<notin> set (map age_value ageOptions)"
    using that by (force simp: calculateCosts_None_iff find_None_iff)
  have e0: "[] \<notin> set (map engine_value engineSizeOptions)"
    by (simp add: engineSizeOptions_def)
  have a0: "[] \<notin> set (map age_value ageOptions)"
    by (simp add: ageOptions_def)
  show ?thesis
    using e a e0 a0 by metis
qed

theorem no_breakdown_without_band_witness:
  "calculateCosts (scenario ''2500000'' [] ''2'' ''japan'') = None \<and>
   calculateCosts (scenario ''2500000'' ''2000'' [] ''japan'') = None \<and>
   ''1800'' \<notin> set (map engine_value engineSizeOptions) \<and>
   calculateCosts (scenario ''2500000'' ''1800'' ''2'' ''japan'') = None \<and>
   ''4'' \<notin> set (map age_value ageOptions) \<and>
   calculateCosts (scenario ''2500000'' ''2000'' ''4'' ''japan'') = None"
  using no_breakdown_without_band [of "scenario ''2500000'' [] ''2'' ''japan''"]
    no_breakdown_without_band [of "scenario ''2500000'' ''2000'' [] ''japan''"]
    no_breakdown_without_band [of "scenario ''2500000'' ''1800'' ''2'' ''japan''"]
    no_breakdown_without_band [of "scenario ''2500000'' ''2000'' ''4'' ''japan''"]
  by (simp add: engineSizeOptions_def ageOptions_def)




text \<open>
  Claim C6. For the declared value 2,500,000, the engine band 1501-2000cc (multiplier
  1.2), the age band 1-2 years (factor 0.95), the origin japan with the shipping rate
  150,000, the rates 25%, 25% and 16%, the service fee of 3% and the fixed fees
  85,000, 15,000, 25,000, 5,000, 3,000 and 12,000, the breakdown has the adjusted value
  2,850,000, the import duty 712,500, the excise duty 712,500, the VAT 684,000, the
  service fee 85,500 and the total 5,339,500. Every product and sum of this run,
  computed in binary64, rounds to the amount given.
\<close>

theorem example_scenario:
  "calculateCosts
     \<lparr>carValue = ''2500000'', engineSize = ''2000'', age = ''2'', origin = ''japan'',
      kraData = kraData_init now, shippingRates = shippingRates_init\<rparr> =
   Some \<lparr>originalValue = Fin 2500000, adjustedValue = Fin 2850000, importDuty = Fin 712500,
         exciseDuty = Fin 712500, vat = Fin 684000, shippingCost = Num (Fin 150000),
         clearingFees = Fin 85000, inspectionFees = Fin 15000, documentationFees = Fin 25000,
         kraFees = Fin 5000, ntsa_fees = Fin 3000, portHandling = Fin 12000,
         ourServiceFee = Fin 85500, totalCost = Num (Fin 5339500),
         engineMultiplier = rnd (12 / 10), depreciationFactor = rnd (95 / 100)\<rparr>"
  by (rule example_run)

text \<open>
  Claim C7. For a declared value above zero and selectors of known bands there is a
  breakdown, and its adjusted value is the declared value times the multiplier of the
  engine band times the depreciation factor of the age band, multiplied in this order
  with the multiplication of numbers; the breakdown also returns the declared value,
  the multiplier and the factor it used.
\<close>

theorem adjusted_value_formula:
  "num_lt (Fin 0) (parseFloat (carValue st)) \<Longrightarrow>
   find (\<lambda>e. engine_value e = engineSize st) engineSizeOptions = Some selectedEngine \<Longrightarrow>
   find (\<lambda>a. age_value a = age st) ageOptions = Some selectedAge \<Longrightarrow>
   \<exists>r. calculateCosts st = Some r \<and>
       adjustedValue r =
         fmul (fmul (parseFloat (carValue st)) (multiplier selectedEngine))
           (age_depreciationFactor selectedAge) \<and>
       originalValue r = parseFloat (carValue st) \<and>
       engineMultiplier r = multiplier selectedEngine \<and>
       depreciationFactor r = age_depreciationFactor selectedAge"
proof -
  assume v: "num_lt (Fin 0) (parseFloat (carValue st))"
    and e: "find (\<lambda>e. engine_value e = engineSize st) engineSizeOptions = Some selectedEngine"
    and a: "find (\<lambda>a. age_value a = age st) ageOptions = Some selectedAge"
  have "\<not> falsy (parseFloat (carValue st))"
    using v by (cases "parseFloat (carValue st)") simp_all
  then show ?thesis
    using e a by (rule calculateCosts_runs) auto
qed

theorem adjusted_value_formula_witness:
  "num_lt (Fin 0) (parseFloat ''2500000'') \<and>
   map_option adjustedValue (calculateCosts (scenario ''2500000'' ''2000'' ''2'' ''japan'')) =
     Some (fmul (fmul (parseFloat ''2500000'') (rnd (12 / 10))) (rnd (95 / 100))) \<and>
   fmul (fmul (parseFloat ''2500000'') (rnd (12 / 10))) (rnd (95 / 100)) = Fin 2850000"
proof -
  have 1: "num_lt (Fin 0) (parseFloat (carValue (scenario ''2500000'' ''2000'' ''2'' ''japan'')))"
    by (simp add: parse_values)
  have 2: "find (\<lambda>e. engine_value e = engineSize (scenario ''2500000'' ''2000'' ''2'' ''japan''))
      engineSizeOptions =
      Some \<lparr>engine_value = ''2000'', engine_label = ''1501-2000cc'', multiplier = rnd (12 / 10)\<rparr>"
    by (simp add: find_engine_2000)
  have 3: "find (\<lambda>a. age_value a = age (scenario ''2500000'' ''2000'' ''2'' ''japan'')) ageOptions =
      Some \<lparr>age_value = ''2'', age_label = ''1-2 years'', age_depreciationFactor = rnd (95 / 100)\<rparr>"
    by (simp add: find_age_2)
  have 4: "fmul (fmul (Fin 2500000) (rnd (12 / 10))) (rnd (95 / 100)) = Fin 2850000"
    by (simp add: rnd_eval cong: let_weak_cong)
  show ?thesis
    using adjusted_value_formula [OF 1 2 3] 4 by (auto simp: parse_values)
qed

text \<open>
  Claim C8. The claim bounds the adjusted value by the declared value for every band
  whose depreciation factor is at most 1 and whose multiplier is at most the largest
  multiplier of the table, which is every band; but a multiplier above 1 raises the
  value, as for 2,500,000 in the band 1501-2000cc at an age below one year, adjusted
  to 3,000,000. What holds for every declared value above zero: the adjusted value is at
  most the declared value times the multiplier of its band, hence at most the declared
  value times the largest multiplier 1.6, and it is at most the declared value in the
  band whose multiplier is 1.
\<close>

theorem adjusted_value_bound:
  assumes "calculateCosts st = Some r" "num_lt (Fin 0) (originalValue r)"
  shows "num_le (adjustedValue r) (fmul (originalValue r) (engineMultiplier r)) \<and>
         num_le (adjustedValue r) (fmul (originalValue r) (rnd (16 / 10))) \<and>
         (engineMultiplier r = Fin 1 \<longrightarrow> num_le (adjustedValue r) (originalValue r))"
proof -
  from assms(1) obtain selectedEngine selectedAge where
    e: "find (\<lambda>e. engine_value e = engineSize st) engineSizeOptions = Some selectedEngine"
    and a: "find (\<lambda>a. age_value a = age st) ageOptions = Some selectedAge"
    and v: "originalValue r = parseFloat (carValue st)"
    and adj: "adjustedValue r = fmul (fmul (parseFloat (carValue st)) (multiplier selectedEngine))
                            (age_depreciationFactor selectedAge)"
    and em: "engineMultiplier r = multiplier selectedEngine"
    by (rule calculateCosts_SomeD)
  from e obtain m where m: "multiplier selectedEngine = Fin m" "1 \<le> m"
    "m \<le> 3602879701896397 / 2251799813685248" by (rule selected_multiplier)
  from a obtain d where d: "age_depreciationFactor selectedAge = Fin d" "0 < d" "d \<le> 1"
    by (rule selected_factor)
  define w where "w = fmul (originalValue r) (Fin m)"
  define w16 where "w16 = fmul (originalValue r) (rnd (16 / 10))"
  have adj': "adjustedValue r = fmul w (Fin d)" by (simp add: adj w_def v m d)
  have "(w = PosInf \<or> (\<exists>y. w = Fin y \<and> 0 \<le> y \<and> rnd y = Fin y)) \<and> num_le w w16 \<and>
        (m = 1 \<longrightarrow> w = originalValue r)"
  proof (cases "originalValue r")
    case NaN
    then show ?thesis using assms(2) by simp
  next
    case PosInf
    then show ?thesis using m by (simp add: w_def w16_def rnd_8_5 signed_inf_def)
  next
    case NegInf
    then show ?thesis using assms(2) by simp
  next
    case (Fin x)
    then have x: "0 < x" using assms(2) by simp
    have dx: "rnd x = Fin x" using Fin v parseFloat_double by simp
    have p: "0 \<le> x * m" "x * m \<le> x * (3602879701896397 / 2251799813685248)"
      using x m by simp_all
    then have le: "num_le (rnd (x * m)) (rnd (x * (3602879701896397 / 2251799813685248)))"
      by (rule rnd_mono_nonneg)
    have "rnd (x * m) = PosInf \<or> (\<exists>y. rnd (x * m) = Fin y \<and> 0 \<le> y \<and> rnd y = Fin y)"
      using p(1) by (rule rnd_nonneg_cases) auto
    then show ?thesis using le dx by (auto simp: w_def w16_def Fin rnd_8_5)
  qed
  then have w: "w = PosInf \<or> (\<exists>y. w = Fin y \<and> 0 \<le> y \<and> rnd y = Fin y)"
    and w16: "num_le w w16" and w1: "m = 1 \<longrightarrow> w = originalValue r" by simp_all
  have 1: "num_le (adjustedValue r) w" unfolding adj' using w d(2,3) by (rule fmul_le_left)
  then have 2: "num_le (adjustedValue r) w16" using w16 by (rule num_le_trans)
  show ?thesis using 1 2 w1 by (auto simp: em m w_def w16_def)
qed

theorem adjusted_value_bound_witness:
  "calculateCosts (scenario ''2500000'' ''2000'' ''2'' ''japan'') = Some example_costs \<and>
   num_lt (Fin 0) (originalValue example_costs) \<and>
   num_le (adjustedValue example_costs)
     (fmul (originalValue example_costs) (engineMultiplier example_costs)) \<and>
   num_le (adjustedValue example_costs) (fmul (originalValue example_costs) (rnd (16 / 10))) \<and>
   map_option engineMultiplier (calculateCosts (scenario ''2500000'' ''1000'' ''2'' ''japan'')) =
     Some (Fin 1) \<and>
   map_option adjustedValue (calculateCosts (scenario ''2500000'' ''1000'' ''2'' ''japan'')) =
     Some (Fin 2375000) \<and>
   num_le (Fin 2375000) (Fin 2500000)"
proof -
  have 1: "num_lt (Fin 0) (originalValue example_costs)" by (simp add: example_costs_def)
  have 2: "num_lt (Fin 0) (originalValue
      \<lparr>originalValue = Fin 2500000, adjustedValue = Fin 2375000,
       importDuty = Fin 593750, exciseDuty = Fin 593750, vat = Fin 570000,
       shippingCost = Num (Fin 150000), clearingFees = Fin 85000, inspectionFees = Fin 15000,
       documentationFees = Fin 25000, kraFees = Fin 5000, ntsa_fees = Fin 3000,
       portHandling = Fin 12000, ourServiceFee = Fin 71250, totalCost = Num (Fin 4498750),
       engineMultiplier = Fin 1, depreciationFactor = rnd (95 / 100)\<rparr>)"
    by simp
  show ?thesis
    using adjusted_value_bound [OF run_example 1] adjusted_value_bound [OF run_small_engine 2]
      run_example 1
    by (simp add: run_small_engine)
qed

theorem adjusted_value_exceeds_declared_counterexample:
  "num_lt (Fin 0) (parseFloat ''2500000'') \<and>
   map_option originalValue (calculateCosts (scenario ''2500000'' ''2000'' ''1'' ''japan'')) =
     Some (Fin 2500000) \<and>
   map_option depreciationFactor (calculateCosts (scenario ''2500000'' ''2000'' ''1'' ''japan'')) =
     Some (Fin 1) \<and>
   map_option engineMultiplier (calculateCosts (scenario ''2500000'' ''2000'' ''1'' ''japan'')) =
     Some (Fin (5404319552844595 / 4503599627370496)) \<and>
   num_le (Fin (5404319552844595 / 4503599627370496)) (rnd (16 / 10)) \<and>
   map_option adjustedValue (calculateCosts (scenario ''2500000'' ''2000'' ''1'' ''japan'')) =
     Some (Fin 3000000) \<and>
   \<not> num_le (Fin 3000000) (Fin 2500000)"
  by (simp add: run_new_car parse_values rnd_eval cong: let_weak_cong)

text \<open>
  Claim C9. In the table of engine bands, listed by rising CC threshold, the
  multipliers never decrease from one band to the next; in the table of age bands,
  listed by rising age threshold, every depreciation factor is above 0 and at most 1,
  and the factors never increase from one band to the next.
\<close>

theorem band_tables_monotone: 
  "sorted_wrt (\<lambda>a b. digits_val a < digits_val b) (map engine_value engineSizeOptions) \<and>
   sorted_wrt num_le (map multiplier engineSizeOptions) \<and>
   sorted_wrt (\<lambda>a b. digits_val a < digits_val b) (map age_value ageOptions) \<and>
   list_all (\<lambda>d. num_lt (Fin 0) d \<and> num_le d (Fin 1)) (map age_depreciationFactor ageOptions) \<and>
   sorted_wrt (\<lambda>a b. num_le b a) (map age_depreciationFactor ageOptions)"
  unfolding engine_multipliers age_factors
  by (simp add: engineSizeOptions_def ageOptions_def digits_val_def)

text \<open>
  Claim C10. The default shipping cost is chosen by the truthiness of the rate that
  was looked up, not by the presence of the key: for an origin that is in the table
  with a rate of zero or \<open>NaN\<close> the shipping cost is 150,000 and not the stored rate.
  The claim says the same of every rate that is not finite; an infinite rate is
  truthy, though, and is kept as the shipping cost.
\<close>

theorem falsy_rate_default_shipping:
  "calculateCosts st = Some r \<Longrightarrow> shippingRates st (origin st) = Some n \<Longrightarrow>
     (n = Fin 0 \<or> n = NaN \<longrightarrow> shippingCost r = Num (Fin 150000)) \<and>
     (n = PosInf \<or> n = NegInf \<longrightarrow> shippingCost r = Num n)"
  by (auto elim!: calculateCosts_SomeD simp: or_default_def get_property_def)

theorem falsy_rate_default_shipping_witness:
  "map_option shippingCost
     (calculateCosts ((scenario ''2500000'' ''2000'' ''2'' ''japan'')
        \<lparr>shippingRates := [''japan'' \<mapsto> Fin 0]\<rparr>)) = Some (Num (Fin 150000)) \<and>
   map_option shippingCost
     (calculateCosts ((scenario ''2500000'' ''2000'' ''2'' ''japan'')
        \<lparr>shippingRates := [''japan'' \<mapsto> NaN]\<rparr>)) = Some (Num (Fin 150000))"
proof -
  let ?S = "\<lambda>n. (scenario ''2500000'' ''2000'' ''2'' ''japan'') \<lparr>shippingRates := [''japan'' \<mapsto> n]\<rparr>"
  have l: "shippingRates (?S n) (origin (?S n)) = Some n" for n by simp
  obtain r0 where r0: "calculateCosts (?S (Fin 0)) = Some r0"
    using run_with_rates [of "[''japan'' \<mapsto> Fin 0]"] by auto
  obtain r1 where r1: "calculateCosts (?S NaN) = Some r1"
    using run_with_rates [of "[''japan'' \<mapsto> NaN]"] by auto
  show ?thesis
    using falsy_rate_default_shipping [OF r0 l] falsy_rate_default_shipping [OF r1 l] r0 r1
    by simp
qed

theorem infinite_rate_counterexample:
  "map_option shippingCost
     (calculateCosts ((scenario ''2500000'' ''2000'' ''2'' ''japan'')
        \<lparr>shippingRates := [''japan'' \<mapsto> PosInf]\<rparr>)) = Some (Num PosInf)"
  by (simp add: run_with_rates or_default_def get_property_def)

end
